theory Spec2Isabelle
  imports Complex_Main "HOL-Library.Word" "HOL-Library.Signed_Division"
begin

section \<open>Data model of expr/helper/helper.go\<close>

text \<open>
  The Go types of the helper package. Times and steps are \<open>int64\<close>: a 64-bit word read
  as two's complement (\<open>sint\<close>), compared with the signed orders \<open><s\<close>, with \<open>+\<close> and
  \<open>-\<close> wrapping around as Go's do.

  A sample is a \<open>float64\<close>. The model keeps the special values apart from the finite
  ones and takes a finite value as an exact rational: rounding and the sign of zero are
  not modelled. Only the extrapolation branch of \<open>AlignSeries\<close> computes with samples.
\<close>

type_synonym int64 = "64 word"

datatype float64 = NaN | PosInf | NegInf | Finite rat

text \<open>
  \<open>types.MetricData\<close>: the fields this package reads and writes. The functions below are
  typed over the record scheme, so whatever further fields the struct has are carried
  along untouched by a copy.
\<close>

record MetricData =
  Name :: string
  StartTime :: int64
  StopTime :: int64
  StepTime :: int64
  Values :: "float64 list"

text \<open>
  Errors a function returns as its second result. \<open>ErrMissingTimeseries\<close> and
  \<open>ErrSeriesDoesNotExist\<close> are the two values of package parser the source names,
  \<open>ErrUnknownFunction\<close> is the type declared in the source, \<open>OtherError\<close> stands for
  every other error value an evaluator may hand back.
\<close>

datatype error =
    ErrMissingTimeseries
  | ErrSeriesDoesNotExist
  | ErrUnknownFunction string
  | OtherError string

text \<open>Run-time panics of Go: the ways a call does not return.\<close>

datatype panic =
    IndexOutOfRange
  | NilDereference
  | DivideByZero
  | MakeSliceLenOutOfRange
  | SliceBoundsOutOfRange

text \<open>
  Modelled from the spec: \<open>parser.Expr\<close> is not part of the sources. The spec describes an
  argument node as exposing its child argument nodes, its function name (target) and the
  text of its raw argument list, and as being a name reference, a function call or a
  literal. The selectors carry the names of the Go methods \<open>Target()\<close>, \<open>Args()\<close>,
  \<open>RawArgs()\<close>.
\<close>

datatype exprType = EtName | EtFunc | EtConst | EtString

datatype expr = Expr (etype: exprType) (Target: string) (Args: "expr list") (RawArgs: string)

definition IsName :: "expr \<Rightarrow> bool" where
  "IsName e = (etype e = EtName)"

definition IsFunc :: "expr \<Rightarrow> bool" where
  "IsFunc e = (etype e = EtFunc)"

text \<open>
  Modelled from the spec: the Evaluator (\<open>interfaces.Evaluator\<close>, the package variable
  \<open>evaluator\<close>) has the single method \<open>Eval(node, from, until, values)\<close> returning a list
  of series and an error. Go returns both results at once, so the model returns a pair;
  \<open>None\<close> is the \<open>nil\<close> error. The map of resolved values is only passed through, its type
  is left open.
\<close>

type_synonym ('a, 'v) Evaluator =
  "expr \<Rightarrow> int64 \<Rightarrow> int64 \<Rightarrow> 'v \<Rightarrow> 'a MetricData_scheme list \<times> error option"

section \<open>Resolving series arguments\<close>

text \<open>
  \<open>GetSeriesArg\<close> returns either \<open>(nil, err)\<close> or \<open>(a, nil)\<close>, never both, so its result is
  a sum. The package variable \<open>evaluator\<close> is a parameter: the functions are modelled as
  called after \<open>SetEvaluator\<close>, and a call of the evaluator as a function of its arguments.
\<close>

definition GetSeriesArg ::
  "('a, 'v) Evaluator \<Rightarrow> expr \<Rightarrow> int64 \<Rightarrow> int64 \<Rightarrow> 'v \<Rightarrow> error + 'a MetricData_scheme list" where
  "GetSeriesArg evaluator arg from until vals =
     (if \<not> IsName arg \<and> \<not> IsFunc arg then Inl ErrMissingTimeseries
      else case evaluator arg from until vals of
             (a, Some err) \<Rightarrow> Inl err
           | (a, None) \<Rightarrow> Inr a)"

text \<open>
  The loop of \<open>GetSeriesArgs\<close> over the argument nodes, with the slice \<open>args\<close> built so
  far. On \<open>ErrSeriesDoesNotExist\<close> the series result of \<open>GetSeriesArg\<close> is \<open>nil\<close>, and
  appending it adds nothing.
\<close>

fun GetSeriesArgs_loop ::
  "('a, 'v) Evaluator \<Rightarrow> int64 \<Rightarrow> int64 \<Rightarrow> 'v \<Rightarrow> 'a MetricData_scheme list \<Rightarrow> expr list
     \<Rightarrow> error + 'a MetricData_scheme list" where
  "GetSeriesArgs_loop evaluator from until vals args [] = Inr args"
| "GetSeriesArgs_loop evaluator from until vals args (arg # e) =
     (case GetSeriesArg evaluator arg from until vals of
        Inl err \<Rightarrow>
          (if err \<noteq> ErrSeriesDoesNotExist then Inl err
           else GetSeriesArgs_loop evaluator from until vals (args @ []) e)
      | Inr a \<Rightarrow> GetSeriesArgs_loop evaluator from until vals (args @ a) e)"

definition GetSeriesArgs ::
  "('a, 'v) Evaluator \<Rightarrow> expr list \<Rightarrow> int64 \<Rightarrow> int64 \<Rightarrow> 'v \<Rightarrow> error + 'a MetricData_scheme list" where
  "GetSeriesArgs evaluator e from until vals =
     (case GetSeriesArgs_loop evaluator from until vals [] e of
        Inl err \<Rightarrow> Inl err
      | Inr args \<Rightarrow> (if length args = 0 then Inl ErrSeriesDoesNotExist else Inr args))"

section \<open>One output per input series\<close>

text \<open>
  \<open>make([]float64, n)\<close> yields \<open>n\<close> samples of value \<open>0\<close>; a negative length panics.
  Running out of memory on a very large \<open>n\<close> is not modelled.
\<close>

definition make_float64 :: "int \<Rightarrow> panic + float64 list" where
  "make_float64 n = (if n < 0 then Inl MakeSliceLenOutOfRange else Inr (replicate (nat n) (Finite 0)))"

text \<open>
  The template \<open>r\<close> of \<open>ForEachSeriesDo\<close> for the input \<open>a\<close>: \<open>r := *a\<close>, then the name and
  the value buffer are replaced. A length is never negative, so this \<open>make\<close> cannot panic.
\<close>

definition seriesTemplate :: "string \<Rightarrow> 'a MetricData_scheme \<Rightarrow> 'a MetricData_scheme" where
  "seriesTemplate target a =
     a\<lparr>Name := target @ ''('' @ Name a @ '')'',
       Values := replicate (length (Values a)) (Finite 0)\<rparr>"

text \<open>
  \<open>ForEachSeriesDo\<close> indexes \<open>e.Args()[0]\<close>, which panics on a node without arguments;
  every error of the resolution is replaced by \<open>ErrMissingTimeseries\<close>. The transform
  \<open>function\<close> is taken as a function of its two arguments.
\<close>

definition ForEachSeriesDo ::
  "('a, 'v) Evaluator \<Rightarrow> expr \<Rightarrow> int64 \<Rightarrow> int64 \<Rightarrow> 'v
     \<Rightarrow> ('a MetricData_scheme \<Rightarrow> 'a MetricData_scheme \<Rightarrow> 'a MetricData_scheme)
     \<Rightarrow> panic + (error + 'a MetricData_scheme list)" where
  "ForEachSeriesDo evaluator e from until vals function =
     (case Args e of
        [] \<Rightarrow> Inl IndexOutOfRange
      | arg0 # _ \<Rightarrow>
          (case GetSeriesArg evaluator arg0 from until vals of
             Inl err \<Rightarrow> Inr (Inl ErrMissingTimeseries)
           | Inr arg \<Rightarrow>
               Inr (Inr (map (\<lambda>a. function a (seriesTemplate (Target e) a)) arg))))"

section \<open>Vocabulary of the statements about the resolver\<close>

text \<open>
  What a node adds to the result of \<open>GetSeriesArgs\<close>: the series it resolved to, nothing
  when its resolution failed.
\<close>

definition contribution ::
  "('a, 'v) Evaluator \<Rightarrow> int64 \<Rightarrow> int64 \<Rightarrow> 'v \<Rightarrow> expr \<Rightarrow> 'a MetricData_scheme list" where
  "contribution ev from until vals n =
     (case GetSeriesArg ev n from until vals of Inl _ \<Rightarrow> [] | Inr a \<Rightarrow> a)"

text \<open>A node is tolerated when it resolves, or fails with \<open>ErrSeriesDoesNotExist\<close>.\<close>

definition tolerated :: "('a, 'v) Evaluator \<Rightarrow> int64 \<Rightarrow> int64 \<Rightarrow> 'v \<Rightarrow> expr \<Rightarrow> bool" where
  "tolerated ev from until vals n =
     (case GetSeriesArg ev n from until vals of
        Inl err \<Rightarrow> err = ErrSeriesDoesNotExist
      | Inr a \<Rightarrow> True)"

text \<open>
  A small evaluator and a transform for the concrete instances: the target
  \<open>missing\<close> does not exist, \<open>empty\<close> resolves to no series, the function \<open>scale\<close> fails as
  a function whose own argument is a literal does, any other function is unknown, and
  every other name resolves to one series of that name.
\<close>

definition exampleSeries :: "string \<Rightarrow> MetricData" where
  "exampleSeries n =
     \<lparr>Name = n, StartTime = 0, StopTime = 20, StepTime = 10, Values = [Finite 1, NaN]\<rparr>"

definition exampleEvaluator :: "(unit, unit) Evaluator" where
  "exampleEvaluator arg from until vals =
     (if Target arg = ''missing'' then ([], Some ErrSeriesDoesNotExist)
      else if Target arg = ''empty'' then ([], None)
      else if Target arg = ''scale'' then ([], Some ErrMissingTimeseries)
      else if IsFunc arg then ([], Some (ErrUnknownFunction (Target arg)))
      else ([exampleSeries (Target arg)], None))"

definition exampleTransform :: "MetricData \<Rightarrow> MetricData \<Rightarrow> MetricData" where
  "exampleTransform a r = r\<lparr>Values := rev (Values a)\<rparr>"


section \<open>Extracting a metric name\<close>

text \<open>
  \<open>utf8.DecodeRuneInString\<close> of Go's standard library, as the loop uses it: the rune at the
  head of the string and its width in bytes. A string is a list of bytes. The lead byte
  gives the size and the range the second byte must lie in; every malformed or truncated
  encoding decodes to \<open>RuneError\<close> with width 1, the empty string to width 0.
\<close>

definition RuneError :: nat where
  "RuneError = 0xFFFD"

definition DecodeRuneInString :: "string \<Rightarrow> nat \<times> nat" where
  "DecodeRuneInString s =
     (case s of
        [] \<Rightarrow> (RuneError, 0)
      | c0 # _ \<Rightarrow>
          let s0 = (of_char c0 :: nat) in
          if s0 < 0x80 then (s0, 1)
          else if s0 < 0xC2 \<or> 0xF4 < s0 then (RuneError, 1)
          else
            let sz = (if s0 < 0xE0 then 2 else if s0 < 0xF0 then 3 else 4 :: nat);
                lo = (if s0 = 0xE0 then 0xA0 else if s0 = 0xF0 then 0x90 else 0x80 :: nat);
                hi = (if s0 = 0xED then 0x9F else if s0 = 0xF4 then 0x8F else 0xBF :: nat)
            in
            if length s < sz then (RuneError, 1)
            else
              let s1 = (of_char (s ! 1) :: nat) in
              if s1 < lo \<or> hi < s1 then (RuneError, 1)
              else if sz \<le> 2 then ((s0 mod 0x20) * 0x40 + s1 mod 0x40, 2)
              else
                let s2 = (of_char (s ! 2) :: nat) in
                if s2 < 0x80 \<or> 0xBF < s2 then (RuneError, 1)
                else if sz \<le> 3 then
                  ((s0 mod 0x10) * 0x1000 + (s1 mod 0x40) * 0x40 + s2 mod 0x40, 3)
                else
                  let s3 = (of_char (s ! 3) :: nat) in
                  if s3 < 0x80 \<or> 0xBF < s3 then (RuneError, 1)
                  else ((s0 mod 8) * 0x40000 + (s1 mod 0x40) * 0x1000
                          + (s2 mod 0x40) * 0x40 + s3 mod 0x40, 4))"

text \<open>
  The loop of \<open>ExtractMetric\<close>, from the state \<open>(start, braces, i)\<close> to the pair
  \<open>(start, i)\<close> the final slice is cut at. \<open>parser.IsNameChar\<close> and the test
  \<open>unicode.In(r, parser.RangeTables...)\<close> are not part of the sources and are taken as
  the parameters \<open>IsNameChar\<close> and \<open>InRangeTables\<close>. The post statement \<open>i += w\<close> runs
  after every iteration that does not break, with \<open>w = 1\<close> unless the default case has
  decoded a rune. \<open>braces\<close> is only decremented when it is not zero, so a natural number
  holds it.
\<close>

function ExtractMetric_loop ::
  "(char \<Rightarrow> bool) \<Rightarrow> (nat \<Rightarrow> bool) \<Rightarrow> string \<Rightarrow> nat \<Rightarrow> nat \<Rightarrow> nat \<Rightarrow> nat \<times> nat" where
  "ExtractMetric_loop IsNameChar InRangeTables s start braces i =
     (if i < length s then
        if IsNameChar (s ! i) then ExtractMetric_loop IsNameChar InRangeTables s start braces (i + 1)
        else if s ! i = CHR '';'' then (start, i)
        else if s ! i = CHR ''{'' then
          ExtractMetric_loop IsNameChar InRangeTables s start (braces + 1) (i + 1)
        else if s ! i = CHR ''}'' then
          (if braces = 0 then (start, i)
           else ExtractMetric_loop IsNameChar InRangeTables s start (braces - 1) (i + 1))
        else if s ! i = CHR '','' then
          (if braces = 0 then (start, i)
           else ExtractMetric_loop IsNameChar InRangeTables s start braces (i + 1))
        else if s ! i = CHR '')'' then (start, i)
        else
          if InRangeTables (fst (DecodeRuneInString (drop i s))) then
            ExtractMetric_loop IsNameChar InRangeTables s start braces
              (i + snd (DecodeRuneInString (drop i s)))
          else
            ExtractMetric_loop IsNameChar InRangeTables s (i + 1) braces
              (i + snd (DecodeRuneInString (drop i s)))
      else (start, i))"
  by pat_completeness auto
termination
proof -
  have w: "0 < snd (DecodeRuneInString (c # t))" for c t
    unfolding DecodeRuneInString_def list.case by (simp add: Let_def)
  have d: "0 < snd (DecodeRuneInString (drop i s))" if "i < length s" for i and s :: string
    using that w [of "s ! i" "drop (Suc i) s"] by (simp add: Cons_nth_drop_Suc)
  show ?thesis
    by (relation "measure (\<lambda>(nc, ir, s, start, braces, i). length s - i)")
       (auto simp: d intro!: diff_less_mono2)
qed

text \<open>The result \<open>s[start:i]\<close>; slicing panics unless \<open>start \<le> i \<le> len(s)\<close>.\<close>

definition ExtractMetric :: "(char \<Rightarrow> bool) \<Rightarrow> (nat \<Rightarrow> bool) \<Rightarrow> string \<Rightarrow> panic + string" where
  "ExtractMetric IsNameChar InRangeTables s =
     (case ExtractMetric_loop IsNameChar InRangeTables s 0 0 0 of
        (start, i) \<Rightarrow>
          if start \<le> i \<and> i \<le> length s then Inr (take (i - start) (drop start s))
          else Inl SliceBoundsOutOfRange)"

text \<open>
  A classifier for the concrete instances: letters, digits and some of the punctuation of
  metric names. The sample in the source's comment shows that \<open>[\<close> is a name character and
  \<open>(\<close> is not.
\<close>

definition exampleIsNameChar :: "char \<Rightarrow> bool" where
  "exampleIsNameChar c =
     ((97 \<le> (of_char c :: nat) \<and> (of_char c :: nat) \<le> 122)
      \<or> (65 \<le> (of_char c :: nat) \<and> (of_char c :: nat) \<le> 90)
      \<or> (48 \<le> (of_char c :: nat) \<and> (of_char c :: nat) \<le> 57)
      \<or> c \<in> set ''._-*?:[]'')"

section \<open>Arithmetic of the Go code\<close>

text \<open>
  Integer division of \<open>int64\<close> truncates towards zero and panics on a zero divisor.
\<close>

definition div64 :: "int64 \<Rightarrow> int64 \<Rightarrow> panic + int64" where
  "div64 a b = (if b = 0 then Inl DivideByZero else Inr (word_of_int (sint a sdiv sint b)))"

text \<open>
  The operations on samples that the extrapolation branch uses, by the rules of IEEE 754
  for the special values. \<open>float64(x)\<close> of an integer and the arithmetic on finite values are
  exact here, and zero has no sign.
\<close>

definition float64_of_int64 :: "int64 \<Rightarrow> float64" where
  "float64_of_int64 x = Finite (of_int (sint x))"

fun fneg :: "float64 \<Rightarrow> float64" where
  "fneg NaN = NaN"
| "fneg PosInf = NegInf"
| "fneg NegInf = PosInf"
| "fneg (Finite a) = Finite (- a)"

fun fadd :: "float64 \<Rightarrow> float64 \<Rightarrow> float64" where
  "fadd NaN y = NaN"
| "fadd x NaN = NaN"
| "fadd PosInf NegInf = NaN"
| "fadd NegInf PosInf = NaN"
| "fadd PosInf y = PosInf"
| "fadd NegInf y = NegInf"
| "fadd x PosInf = PosInf"
| "fadd x NegInf = NegInf"
| "fadd (Finite a) (Finite b) = Finite (a + b)"

definition fsub :: "float64 \<Rightarrow> float64 \<Rightarrow> float64" where
  "fsub x y = fadd x (fneg y)"

fun fdiv :: "float64 \<Rightarrow> float64 \<Rightarrow> float64" where
  "fdiv NaN y = NaN"
| "fdiv x NaN = NaN"
| "fdiv (Finite a) (Finite b) =
     (if b = 0 then (if a = 0 then NaN else if 0 < a then PosInf else NegInf)
      else Finite (a / b))"
| "fdiv (Finite a) y = Finite 0"
| "fdiv PosInf (Finite b) = (if b < 0 then NegInf else PosInf)"
| "fdiv NegInf (Finite b) = (if b < 0 then PosInf else NegInf)"
| "fdiv x y = NaN"

text \<open>\<open>math.Ceil\<close> leaves the special values as they are.\<close>

fun fceil :: "float64 \<Rightarrow> float64" where
  "fceil (Finite a) = Finite (of_int \<lceil>a\<rceil>)"
| "fceil x = x"

text \<open>
  The conversion \<open>int(x)\<close> truncates towards zero. The result for a value that is not an
  \<open>int64\<close> is left to the implementation by the language; on amd64 it is the least
  \<open>int64\<close>, which is what the model returns.
\<close>

definition int_of_float64 :: "float64 \<Rightarrow> int64" where
  "int_of_float64 x =
     (case x of
        Finite a \<Rightarrow>
          (let t = (if 0 \<le> a then \<lfloor>a\<rfloor> else \<lceil>a\<rceil>)
           in if - (2 ^ 63) \<le> t \<and> t < 2 ^ 63 then word_of_int t else - (2 ^ 63))
      | _ \<Rightarrow> - (2 ^ 63))"

section \<open>Aligning series\<close>

text \<open>
  \<open>AlignSeries\<close> and \<open>AggregateSeries\<close> take \<open>[]*types.MetricData\<close> and write through the
  pointers. The series therefore live in a store, a list of objects, and a pointer is an
  index into it; an index outside the store stands for \<open>nil\<close>, and dereferencing it
  panics. The same pointer may stand twice in an argument list. Value buffers are
  modelled as values: two series are taken not to share the array behind their
  \<open>Values\<close>.
\<close>

type_synonym ptr = nat

type_synonym 'a store = "'a MetricData_scheme list"

definition deref :: "'a store \<Rightarrow> ptr \<Rightarrow> panic + 'a MetricData_scheme" where
  "deref h p = (if p < length h then Inr (h ! p) else Inl NilDereference)"

text \<open>
  The inner loop of the extrapolation, \<open>for ts < arg.StopTime\<close>. It reads \<open>arg\<close> and writes
  the new buffer only. Every iteration writes \<open>newVals[i]\<close> and increments \<open>i\<close>, so it
  runs at most \<open>len(newVals)\<close> times before it returns or panics.
\<close>

function extrapolate_loop ::
  "'a MetricData_scheme \<Rightarrow> int64 \<Rightarrow> float64 \<Rightarrow> float64 list \<Rightarrow> int64 \<Rightarrow> int64 \<Rightarrow> nat \<Rightarrow> nat
     \<Rightarrow> float64 \<Rightarrow> float64 \<Rightarrow> panic + float64 list" where
  "extrapolate_loop arg minStepTime pointsPerInterval newVals ts nextTs i j v dv =
     (if ts <s StopTime arg then
        if i < length newVals then
          if nextTs <s ts then
            if j + 1 < length (Values arg) then
              extrapolate_loop arg minStepTime pointsPerInterval (newVals[i := v])
                (ts + minStepTime) (nextTs + StepTime arg) (i + 1) (j + 1)
                (Values arg ! (j + 1))
                (fdiv (fsub (Values arg ! j) (Values arg ! (j + 1))) pointsPerInterval)
            else Inl IndexOutOfRange
          else
            extrapolate_loop arg minStepTime pointsPerInterval (newVals[i := v])
              (ts + minStepTime) nextTs (i + 1) j (fadd v dv) dv
        else Inl IndexOutOfRange
      else Inr newVals)"
  by pat_completeness auto
termination
  by (relation "measure (\<lambda>(arg, minStepTime, pointsPerInterval, newVals, ts, nextTs, i, j, v, dv).
                           length newVals - i)") auto

text \<open>
  One iteration of \<open>for _, arg := range args\<close> in the extrapolation block: the running
  minimum of the steps, and the series resampled when its step exceeds that minimum.
  \<open>arg.Values[0]\<close> and \<open>arg.Values[1]\<close> are read before the loop.
\<close>

definition extrapolateArg ::
  "int64 \<Rightarrow> 'a MetricData_scheme \<Rightarrow> panic + (int64 \<times> 'a MetricData_scheme)" where
  "extrapolateArg minStepTime0 arg =
     (let minStepTime = (if StepTime arg <s minStepTime0 then StepTime arg else minStepTime0) in
      if minStepTime <s StepTime arg then
        (let valsCnt = int_of_float64 (fceil (fdiv (float64_of_int64 (StopTime arg - StartTime arg))
                                                   (float64_of_int64 minStepTime)))
         in case make_float64 (sint valsCnt) of
              Inl p \<Rightarrow> Inl p
            | Inr newVals \<Rightarrow>
                (let ts = StartTime arg;
                     nextTs = StartTime arg + StepTime arg;
                     pointsPerInterval = fdiv (float64_of_int64 (ts - nextTs)) (float64_of_int64 minStepTime)
                 in if \<not> 0 < length (Values arg) then Inl IndexOutOfRange
                    else if \<not> 1 < length (Values arg) then Inl IndexOutOfRange
                    else
                      (case extrapolate_loop arg minStepTime pointsPerInterval newVals ts nextTs 0 0
                              (Values arg ! 0)
                              (fdiv (fsub (Values arg ! 0) (Values arg ! 1)) pointsPerInterval) of
                         Inl p \<Rightarrow> Inl p
                       | Inr newVals' \<Rightarrow>
                           Inr (minStepTime, arg\<lparr>Values := newVals', StepTime := minStepTime\<rparr>))))
      else Inr (minStepTime, arg))"

fun extrapolateArgs :: "'a store \<Rightarrow> int64 \<Rightarrow> ptr list \<Rightarrow> panic + ('a store \<times> int64)" where
  "extrapolateArgs h minStepTime [] = Inr (h, minStepTime)"
| "extrapolateArgs h minStepTime (p # ps) =
     (case deref h p of
        Inl e \<Rightarrow> Inl e
      | Inr arg \<Rightarrow>
          (case extrapolateArg minStepTime arg of
             Inl e \<Rightarrow> Inl e
           | Inr (minStepTime', arg') \<Rightarrow> extrapolateArgs (h[p := arg']) minStepTime' ps))"

text \<open>
  The two paddings of one series. The count is an \<open>int64\<close> division, and \<open>make\<close> yields
  that many zeros.
\<close>

definition padStart :: "int64 \<Rightarrow> 'a MetricData_scheme \<Rightarrow> panic + 'a MetricData_scheme" where
  "padStart minStart arg =
     (if minStart <s StartTime arg then
        (case div64 (StartTime arg - minStart) (StepTime arg) of
           Inl e \<Rightarrow> Inl e
         | Inr valCnt \<Rightarrow>
             (case make_float64 (sint valCnt) of
                Inl e \<Rightarrow> Inl e
              | Inr newVals \<Rightarrow> Inr (arg\<lparr>Values := newVals @ Values arg, StartTime := minStart\<rparr>)))
      else Inr arg)"

definition padStop :: "int64 \<Rightarrow> 'a MetricData_scheme \<Rightarrow> panic + 'a MetricData_scheme" where
  "padStop maxStop arg =
     (if StopTime arg <s maxStop then
        (case div64 (maxStop - StopTime arg) (StepTime arg) of
           Inl e \<Rightarrow> Inl e
         | Inr valCnt \<Rightarrow>
             (case make_float64 (sint valCnt) of
                Inl e \<Rightarrow> Inl e
              | Inr newVals \<Rightarrow> Inr (arg\<lparr>Values := Values arg @ newVals, StopTime := maxStop\<rparr>)))
      else Inr arg)"

text \<open>
  One iteration of the padding loop, on the running \<open>(maxVals, minStart, maxStop)\<close>.
\<close>

definition padArg ::
  "nat \<times> int64 \<times> int64 \<Rightarrow> 'a MetricData_scheme
     \<Rightarrow> panic + ((nat \<times> int64 \<times> int64) \<times> 'a MetricData_scheme)" where
  "padArg st arg =
     (case st of (maxVals0, minStart0, maxStop0) \<Rightarrow>
        (let maxVals = (if maxVals0 < length (Values arg) then length (Values arg) else maxVals0);
             minStart = (if StartTime arg <s minStart0 then StartTime arg else minStart0)
         in case padStart minStart arg of
              Inl e \<Rightarrow> Inl e
            | Inr arg1 \<Rightarrow>
                (let maxStop = (if maxStop0 <s StopTime arg1 then StopTime arg1 else maxStop0)
                 in case padStop maxStop arg1 of
                      Inl e \<Rightarrow> Inl e
                    | Inr arg2 \<Rightarrow> Inr ((maxVals, minStart, maxStop), arg2))))"

fun padArgs ::
  "'a store \<Rightarrow> nat \<times> int64 \<times> int64 \<Rightarrow> ptr list \<Rightarrow> panic + ('a store \<times> (nat \<times> int64 \<times> int64))" where
  "padArgs h st [] = Inr (h, st)"
| "padArgs h st (p # ps) =
     (case deref h p of
        Inl e \<Rightarrow> Inl e
      | Inr arg \<Rightarrow>
          (case padArg st arg of
             Inl e \<Rightarrow> Inl e
           | Inr (st', arg') \<Rightarrow> padArgs (h[p := arg']) st' ps))"

text \<open>
  The body of \<open>for j := 0; j < 2; j++\<close>: the extrapolation block when the flag
  \<open>ExtrapolatePoints\<close> is set, then the padding loop.
\<close>

definition alignPass ::
  "bool \<Rightarrow> ptr list \<Rightarrow> 'a store \<times> (nat \<times> int64 \<times> int64) \<times> int64
     \<Rightarrow> panic + ('a store \<times> (nat \<times> int64 \<times> int64) \<times> int64)" where
  "alignPass ExtrapolatePoints args s =
     (case s of (h, st, minStepTime) \<Rightarrow>
        (case (if ExtrapolatePoints then extrapolateArgs h minStepTime args else Inr (h, minStepTime)) of
           Inl e \<Rightarrow> Inl e
         | Inr (h1, minStepTime1) \<Rightarrow>
             (case padArgs h1 st args of
                Inl e \<Rightarrow> Inl e
              | Inr (h2, st2) \<Rightarrow> Inr (h2, st2, minStepTime1))))"

text \<open>
  \<open>AlignSeries\<close> reads \<open>args[0]\<close> first, runs the body twice and returns the slice it was
  given, with the store as the passes left it.
\<close>

definition AlignSeries :: "bool \<Rightarrow> 'a store \<Rightarrow> ptr list \<Rightarrow> panic + ('a store \<times> ptr list)" where
  "AlignSeries ExtrapolatePoints h args =
     (case args of
        [] \<Rightarrow> Inl IndexOutOfRange
      | p0 # _ \<Rightarrow>
          (case deref h p0 of
             Inl e \<Rightarrow> Inl e
           | Inr a0 \<Rightarrow>
               (case alignPass ExtrapolatePoints args (h, (0, StartTime a0, StopTime a0), StepTime a0) of
                  Inl e \<Rightarrow> Inl e
                | Inr s1 \<Rightarrow>
                    (case alignPass ExtrapolatePoints args s1 of
                       Inl e \<Rightarrow> Inl e
                     | Inr (h2, st2, minStepTime2) \<Rightarrow> Inr (h2, args)))))"

section \<open>Aggregating series\<close>

text \<open>
  The inner loop \<open>for _, arg := range args\<close> that collects the \<open>i\<close>-th sample of every
  series; \<open>arg.Values[i]\<close> panics on a series that is too short.
\<close>

fun collectValues :: "'a store \<Rightarrow> float64 list \<Rightarrow> ptr list \<Rightarrow> nat \<Rightarrow> panic + float64 list" where
  "collectValues h vs [] i = Inr vs"
| "collectValues h vs (p # ps) i =
     (case deref h p of
        Inl e \<Rightarrow> Inl e
      | Inr arg \<Rightarrow>
          (if i < length (Values arg) then collectValues h (vs @ [Values arg ! i]) ps i
           else Inl IndexOutOfRange))"

text \<open>
  The outer loop \<open>for i := range args[0].Values\<close>, on the buffer \<open>r.Values\<close>: the sample is
  set to \<open>NaN\<close> and then, when something was collected, to the value of \<open>function\<close>.
\<close>

fun aggregateLoop ::
  "(float64 list \<Rightarrow> float64) \<Rightarrow> 'a store \<Rightarrow> ptr list \<Rightarrow> float64 list \<Rightarrow> nat list
     \<Rightarrow> panic + float64 list" where
  "aggregateLoop function h args rv [] = Inr rv"
| "aggregateLoop function h args rv (i # is) =
     (case collectValues h [] args i of
        Inl e \<Rightarrow> Inl e
      | Inr vs \<Rightarrow>
          (if i < length rv then
             aggregateLoop function h args
               (if 0 < length vs then (rv[i := NaN])[i := function vs] else rv[i := NaN]) is
           else Inl IndexOutOfRange))"

text \<open>
  \<open>AggregateSeries\<close> aligns, copies \<open>args[0]\<close> into \<open>r\<close>, fills a new buffer and returns a
  pointer to \<open>r\<close>, a new object of the store. Its error result is always \<open>nil\<close>. The
  aggregate \<open>function\<close> is taken as a function of the collected samples.
\<close>

definition AggregateSeries ::
  "bool \<Rightarrow> expr \<Rightarrow> 'a store \<Rightarrow> ptr list \<Rightarrow> (float64 list \<Rightarrow> float64) \<Rightarrow> panic + ('a store \<times> ptr list)" where
  "AggregateSeries ExtrapolatePoints e h args0 function =
     (case AlignSeries ExtrapolatePoints h args0 of
        Inl p \<Rightarrow> Inl p
      | Inr (h1, args) \<Rightarrow>
          (case args of
             [] \<Rightarrow> Inl IndexOutOfRange
           | p0 # _ \<Rightarrow>
               (case deref h1 p0 of
                  Inl p \<Rightarrow> Inl p
                | Inr a0 \<Rightarrow>
                    (let r = a0\<lparr>Name := Target e @ ''('' @ RawArgs e @ '')'',
                                 Values := replicate (length (Values a0)) (Finite 0)\<rparr>
                     in case aggregateLoop function h1 args (Values r) [0..<length (Values a0)] of
                          Inl p \<Rightarrow> Inl p
                        | Inr rv \<Rightarrow> Inr (h1 @ [r\<lparr>Values := rv\<rparr>], [length h1])))))"

section \<open>Vocabulary of the statements about alignment and aggregation\<close>

text \<open>
  Times of absolute value at most \<open>2 ^ 62\<close>: the difference of two of them does not wrap
  around. A series is regular when its step is positive and its bounds are such times.
\<close>

definition small :: "int64 \<Rightarrow> bool" where
  "small t = (- (2 ^ 62) \<le> sint t \<and> sint t < 2 ^ 62)"

definition regular :: "'a MetricData_scheme \<Rightarrow> bool" where
  "regular a = (0 <s StepTime a \<and> small (StartTime a) \<and> small (StopTime a))"

text \<open>
  The number of samples the code pads a series with between \<open>lo\<close> and \<open>hi\<close>, and the series
  padded with zeros up to the bounds \<open>[minStart, maxStop]\<close>.
\<close>

definition padCount :: "int64 \<Rightarrow> int64 \<Rightarrow> int64 \<Rightarrow> nat" where
  "padCount hi lo step = nat ((sint hi - sint lo) div sint step)"

definition padded :: "int64 \<Rightarrow> int64 \<Rightarrow> 'a MetricData_scheme \<Rightarrow> 'a MetricData_scheme" where
  "padded minStart maxStop a =
     a\<lparr>Values := replicate (padCount (StartTime a) minStart (StepTime a)) (Finite 0)
                  @ Values a
                  @ replicate (padCount maxStop (StopTime a) (StepTime a)) (Finite 0),
       StartTime := minStart, StopTime := maxStop\<rparr>"

text \<open>The running minimum and maximum, in the signed order of \<open>int64\<close>.\<close>

definition smin :: "int64 \<Rightarrow> int64 \<Rightarrow> int64" where
  "smin a b = (if a <s b then a else b)"

definition smax :: "int64 \<Rightarrow> int64 \<Rightarrow> int64" where
  "smax a b = (if a <s b then b else a)"

text \<open>The samples at index \<open>i\<close> of the series \<open>args\<close> point to, in order.\<close>

definition samplesAt :: "'a store \<Rightarrow> ptr list \<Rightarrow> nat \<Rightarrow> float64 list" where
  "samplesAt h args i = map (\<lambda>p. Values (h ! p) ! i) args"

text \<open>
  Stores and an aggregate function for the concrete instances. \<open>exampleSum\<close> adds the
  samples that are not \<open>NaN\<close>.
\<close>

definition exampleStore :: "MetricData list" where
  "exampleStore =
     [\<lparr>Name = ''A'', StartTime = 0, StopTime = 30, StepTime = 10, Values = [Finite 1, Finite 2, NaN]\<rparr>,
      \<lparr>Name = ''B'', StartTime = 10, StopTime = 20, StepTime = 10, Values = [Finite 5]\<rparr>]"

definition exampleSum :: "float64 list \<Rightarrow> float64" where
  "exampleSum vs = foldr fadd (filter (\<lambda>v. v \<noteq> NaN) vs) (Finite 0)"

definition coarseStore :: "MetricData list" where
  "coarseStore =
     [\<lparr>Name = ''A'', StartTime = 0, StopTime = 40, StepTime = 10, Values = [Finite 1, Finite 2, Finite 3, Finite 4]\<rparr>,
      \<lparr>Name = ''B'', StartTime = 0, StopTime = 40, StepTime = 10, Values = [Finite 1, Finite 2, Finite 3, Finite 4]\<rparr>,
      \<lparr>Name = ''C'', StartTime = 0, StopTime = 40, StepTime = 40, Values = [Finite 7]\<rparr>]"

section \<open>Properties of the resolver\<close>

lemma GetSeriesArgs_loop_tolerant:
  "(\<forall>n \<in> set e. \<forall>err. GetSeriesArg ev n from until vals = Inl err \<longrightarrow> err = ErrSeriesDoesNotExist)
   \<Longrightarrow> GetSeriesArgs_loop ev from until vals args e =
       Inr (args @ concat (map (\<lambda>n. case GetSeriesArg ev n from until vals of
                                        Inl _ \<Rightarrow> [] | Inr a \<Rightarrow> a) e))"
  by (induction e arbitrary: args) (auto split: sum.splits)

lemma GetSeriesArgs_loop_abort:
  "(\<forall>m \<in> set pre. \<forall>err'. GetSeriesArg ev m from until vals = Inl err' \<longrightarrow> err' = ErrSeriesDoesNotExist)
   \<Longrightarrow> GetSeriesArg ev n from until vals = Inl err \<Longrightarrow> err \<noteq> ErrSeriesDoesNotExist
   \<Longrightarrow> GetSeriesArgs_loop ev from until vals args (pre @ n # post) = Inl err"
  by (induction pre arbitrary: args) (auto split: sum.splits)

text \<open>
  Claim C8, as amended. \<open>GetSeriesArg\<close> fails with \<open>ErrMissingTimeseries\<close> exactly when the
  node is neither a name reference nor a function call, or the Evaluator itself returns
  \<open>ErrMissingTimeseries\<close> for it. For a name reference or a function call it returns the
  Evaluator's series unchanged when the Evaluator reports no error, and the Evaluator's
  error, whichever it is, when it reports one.
\<close>

theorem GetSeriesArg_result:
  "(GetSeriesArg ev arg from until vals = Inl ErrMissingTimeseries
      \<longleftrightarrow> (\<not> IsName arg \<and> \<not> IsFunc arg) \<or> snd (ev arg from until vals) = Some ErrMissingTimeseries)
   \<and> (IsName arg \<or> IsFunc arg \<longrightarrow>
        (\<forall>a. ev arg from until vals = (a, None) \<longrightarrow> GetSeriesArg ev arg from until vals = Inr a)
      \<and> (\<forall>a err. ev arg from until vals = (a, Some err) \<longrightarrow> GetSeriesArg ev arg from until vals = Inl err))"
  by (auto simp: GetSeriesArg_def split: prod.splits option.splits)

text \<open>
  The theorem at a name the evaluator resolves, at a function it does not know, and at a
  literal.
\<close>

theorem GetSeriesArg_result_witness:
  "IsName (Expr EtName ''cpu'' [] '''')
   \<and> exampleEvaluator (Expr EtName ''cpu'' [] '''') 0 60 () = ([exampleSeries ''cpu''], None)
   \<and> GetSeriesArg exampleEvaluator (Expr EtName ''cpu'' [] '''') 0 60 () = Inr [exampleSeries ''cpu'']
   \<and> IsFunc (Expr EtFunc ''nosuch'' [] '''')
   \<and> exampleEvaluator (Expr EtFunc ''nosuch'' [] '''') 0 60 () = ([], Some (ErrUnknownFunction ''nosuch''))
   \<and> GetSeriesArg exampleEvaluator (Expr EtFunc ''nosuch'' [] '''') 0 60 () = Inl (ErrUnknownFunction ''nosuch'')
   \<and> GetSeriesArg exampleEvaluator (Expr EtConst ''1'' [] '''') 0 60 () = Inl ErrMissingTimeseries"
proof -
  have n: "IsName (Expr EtName ''cpu'' [] '''')" by (simp add: IsName_def)
  have f: "IsFunc (Expr EtFunc ''nosuch'' [] '''')" by (simp add: IsFunc_def)
  have c: "\<not> IsName (Expr EtConst ''1'' [] '''') \<and> \<not> IsFunc (Expr EtConst ''1'' [] '''')"
    by (simp add: IsName_def IsFunc_def)
  have e1: "exampleEvaluator (Expr EtName ''cpu'' [] '''') 0 60 () = ([exampleSeries ''cpu''], None)"
    by (simp add: exampleEvaluator_def IsFunc_def)
  have e2: "exampleEvaluator (Expr EtFunc ''nosuch'' [] '''') 0 60 () = ([], Some (ErrUnknownFunction ''nosuch''))"
    by (simp add: exampleEvaluator_def IsFunc_def)
  from n e1 GetSeriesArg_result [of exampleEvaluator "Expr EtName ''cpu'' [] ''''" 0 60 "()"]
  have r1: "GetSeriesArg exampleEvaluator (Expr EtName ''cpu'' [] '''') 0 60 () = Inr [exampleSeries ''cpu'']"
    by blast
  from f e2 GetSeriesArg_result [of exampleEvaluator "Expr EtFunc ''nosuch'' [] ''''" 0 60 "()"]
  have r2: "GetSeriesArg exampleEvaluator (Expr EtFunc ''nosuch'' [] '''') 0 60 () = Inl (ErrUnknownFunction ''nosuch'')"
    by blast
  from c GetSeriesArg_result [of exampleEvaluator "Expr EtConst ''1'' [] ''''" 0 60 "()"]
  have r3: "GetSeriesArg exampleEvaluator (Expr EtConst ''1'' [] '''') 0 60 () = Inl ErrMissingTimeseries"
    by blast
  from n f e1 e2 r1 r2 r3 show ?thesis by blast
qed

text \<open>
  The claim as stated fails: for the function call \<open>scale(2)\<close> the evaluator returns
  \<open>ErrMissingTimeseries\<close>, and \<open>GetSeriesArg\<close> hands it on although the node is a function
  call.
\<close>

theorem GetSeriesArg_exactly_when_counterexample:
  "\<not> (GetSeriesArg exampleEvaluator (Expr EtFunc ''scale'' [Expr EtConst ''2'' [] ''''] ''2'') 0 60 ()
          = Inl ErrMissingTimeseries
        \<longleftrightarrow> \<not> IsName (Expr EtFunc ''scale'' [Expr EtConst ''2'' [] ''''] ''2'')
            \<and> \<not> IsFunc (Expr EtFunc ''scale'' [Expr EtConst ''2'' [] ''''] ''2''))"
  by (simp add: GetSeriesArg_def exampleEvaluator_def IsName_def IsFunc_def)

text \<open>
  Claim C3. \<open>GetSeriesArgs\<close> resolves the nodes in order and concatenates what they
  resolve to. When every node resolves or fails with \<open>ErrSeriesDoesNotExist\<close>, the result
  is the concatenation of the contributions, a failing node contributing nothing, and
  the call fails with \<open>ErrSeriesDoesNotExist\<close> when that concatenation is empty. The first
  node that fails with another error ends the call with that error, whatever follows
  it. Over three nodes of which the middle one resolves to no series, the result is the
  concatenation of the other two (which must hold a series, by the rule on the empty
  concatenation).
\<close>

theorem GetSeriesArgs_result:
  "((\<forall>n \<in> set e. tolerated ev from until vals n) \<longrightarrow>
      GetSeriesArgs ev e from until vals =
        (if concat (map (contribution ev from until vals) e) = [] then Inl ErrSeriesDoesNotExist
         else Inr (concat (map (contribution ev from until vals) e))))
   \<and> ((\<forall>m \<in> set pre. tolerated ev from until vals m) \<longrightarrow>
        GetSeriesArg ev n from until vals = Inl err \<longrightarrow> err \<noteq> ErrSeriesDoesNotExist \<longrightarrow>
        GetSeriesArgs ev (pre @ n # post) from until vals = Inl err)
   \<and> (GetSeriesArg ev n1 from until vals = Inr a1 \<longrightarrow>
        (GetSeriesArg ev n2 from until vals = Inr []
           \<or> GetSeriesArg ev n2 from until vals = Inl ErrSeriesDoesNotExist) \<longrightarrow>
        GetSeriesArg ev n3 from until vals = Inr a3 \<longrightarrow> a1 @ a3 \<noteq> [] \<longrightarrow>
        GetSeriesArgs ev [n1, n2, n3] from until vals = Inr (a1 @ a3))"
proof (intro conjI impI)
  assume "\<forall>n \<in> set e. tolerated ev from until vals n"
  then have "\<forall>n \<in> set e. \<forall>err. GetSeriesArg ev n from until vals = Inl err \<longrightarrow> err = ErrSeriesDoesNotExist"
    by (auto simp: tolerated_def)
  from GetSeriesArgs_loop_tolerant [OF this, of "[]"]
  show "GetSeriesArgs ev e from until vals =
        (if concat (map (contribution ev from until vals) e) = [] then Inl ErrSeriesDoesNotExist
         else Inr (concat (map (contribution ev from until vals) e)))"
    unfolding GetSeriesArgs_def contribution_def by simp
next
  assume "\<forall>m \<in> set pre. tolerated ev from until vals m"
    and r: "GetSeriesArg ev n from until vals = Inl err" and ne: "err \<noteq> ErrSeriesDoesNotExist"
  then have "\<forall>m \<in> set pre. \<forall>err'. GetSeriesArg ev m from until vals = Inl err' \<longrightarrow> err' = ErrSeriesDoesNotExist"
    by (auto simp: tolerated_def)
  from GetSeriesArgs_loop_abort [OF this r ne, of "[]" post]
  show "GetSeriesArgs ev (pre @ n # post) from until vals = Inl err"
    by (simp add: GetSeriesArgs_def)
next
  assume "GetSeriesArg ev n1 from until vals = Inr a1"
    and "GetSeriesArg ev n2 from until vals = Inr []
           \<or> GetSeriesArg ev n2 from until vals = Inl ErrSeriesDoesNotExist"
    and "GetSeriesArg ev n3 from until vals = Inr a3" and "a1 @ a3 \<noteq> []"
  then show "GetSeriesArgs ev [n1, n2, n3] from until vals = Inr (a1 @ a3)"
    by (auto simp: GetSeriesArgs_def)
qed

text \<open>
  The theorem at three nodes with a missing, then with an empty middle node; at an
  unknown function after a missing series; and at two nodes that contribute nothing.
\<close>

theorem GetSeriesArgs_result_witness:
  "GetSeriesArgs exampleEvaluator
     [Expr EtName ''a'' [] '''', Expr EtName ''missing'' [] '''', Expr EtName ''c'' [] ''''] 0 60 ()
     = Inr [exampleSeries ''a'', exampleSeries ''c'']
   \<and> GetSeriesArgs exampleEvaluator
     [Expr EtName ''a'' [] '''', Expr EtName ''empty'' [] '''', Expr EtName ''c'' [] ''''] 0 60 ()
     = Inr [exampleSeries ''a'', exampleSeries ''c'']
   \<and> GetSeriesArgs exampleEvaluator
     [Expr EtName ''missing'' [] '''', Expr EtFunc ''nosuch'' [] '''', Expr EtName ''c'' [] ''''] 0 60 ()
     = Inl (ErrUnknownFunction ''nosuch'')
   \<and> GetSeriesArgs exampleEvaluator
     [Expr EtName ''missing'' [] '''', Expr EtName ''empty'' [] ''''] 0 60 ()
     = Inl ErrSeriesDoesNotExist"
proof -
  let ?a = "Expr EtName ''a'' [] ''''" and ?c = "Expr EtName ''c'' [] ''''"
  let ?m = "Expr EtName ''missing'' [] ''''" and ?e = "Expr EtName ''empty'' [] ''''"
  let ?f = "Expr EtFunc ''nosuch'' [] ''''"
  have a: "GetSeriesArg exampleEvaluator ?a 0 60 () = Inr [exampleSeries ''a'']"
    by (simp add: GetSeriesArg_def exampleEvaluator_def IsName_def IsFunc_def)
  have c: "GetSeriesArg exampleEvaluator ?c 0 60 () = Inr [exampleSeries ''c'']"
    by (simp add: GetSeriesArg_def exampleEvaluator_def IsName_def IsFunc_def)
  have m: "GetSeriesArg exampleEvaluator ?m 0 60 () = Inl ErrSeriesDoesNotExist"
    by (simp add: GetSeriesArg_def exampleEvaluator_def IsName_def IsFunc_def)
  have e: "GetSeriesArg exampleEvaluator ?e 0 60 () = Inr []"
    by (simp add: GetSeriesArg_def exampleEvaluator_def IsName_def IsFunc_def)
  have f: "GetSeriesArg exampleEvaluator ?f 0 60 () = Inl (ErrUnknownFunction ''nosuch'')"
    by (simp add: GetSeriesArg_def exampleEvaluator_def IsName_def IsFunc_def)
  have ne: "[exampleSeries ''a''] @ [exampleSeries ''c''] \<noteq> []" by simp
  have tm: "\<forall>k \<in> set [?m]. tolerated exampleEvaluator 0 60 () k"
    by (simp add: tolerated_def m)
  have tme: "\<forall>k \<in> set [?m, ?e]. tolerated exampleEvaluator 0 60 () k"
    by (simp add: tolerated_def m e)
  have cme: "concat (map (contribution exampleEvaluator 0 60 ()) [?m, ?e]) = []"
    by (simp add: contribution_def m e)
  note th = GetSeriesArgs_result [where ev = exampleEvaluator and ?from = 0 and until = 60 and vals = "()"]
  from th [where ?n1.0 = ?a and ?n2.0 = ?m and ?n3.0 = ?c] a m c ne
  have r1: "GetSeriesArgs exampleEvaluator [?a, ?m, ?c] 0 60 () = Inr ([exampleSeries ''a''] @ [exampleSeries ''c''])"
    by blast
  from th [where ?n1.0 = ?a and ?n2.0 = ?e and ?n3.0 = ?c] a e c ne
  have r2: "GetSeriesArgs exampleEvaluator [?a, ?e, ?c] 0 60 () = Inr ([exampleSeries ''a''] @ [exampleSeries ''c''])"
    by blast
  from th [where pre = "[?m]" and n = ?f and post = "[?c]" and err = "ErrUnknownFunction ''nosuch''"] tm f
  have r3: "GetSeriesArgs exampleEvaluator ([?m] @ ?f # [?c]) 0 60 () = Inl (ErrUnknownFunction ''nosuch'')"
    by blast
  from th [where e = "[?m, ?e]"] tme cme
  have r4: "GetSeriesArgs exampleEvaluator [?m, ?e] 0 60 () = Inl ErrSeriesDoesNotExist"
    by presburger
  from r1 r2 r3 r4 show ?thesis by simp
qed

text \<open>
  Claim C7. When the first argument of the node resolves to the list \<open>arg\<close>,
  \<open>ForEachSeriesDo\<close> returns, in the order of \<open>arg\<close>, what the transform makes of each input
  and its template. The template of an input is a copy of it in every field except the
  name, which is \<open>target(input name)\<close>, and the value buffer, which is new, as long as the
  input's, and holds zeros.
\<close>

theorem ForEachSeriesDo_in_order:
  "Args e = arg0 # rest \<Longrightarrow> GetSeriesArg ev arg0 from until vals = Inr arg \<Longrightarrow>
     ForEachSeriesDo ev e from until vals function
       = Inr (Inr (map (\<lambda>a. function a (seriesTemplate (Target e) a)) arg))
     \<and> (\<forall>a. Name (seriesTemplate (Target e) a) = Target e @ ''('' @ Name a @ '')''
           \<and> Values (seriesTemplate (Target e) a) = replicate (length (Values a)) (Finite 0)
           \<and> length (Values (seriesTemplate (Target e) a)) = length (Values a)
           \<and> StartTime (seriesTemplate (Target e) a) = StartTime a
           \<and> StopTime (seriesTemplate (Target e) a) = StopTime a
           \<and> StepTime (seriesTemplate (Target e) a) = StepTime a
           \<and> MetricData.more (seriesTemplate (Target e) a) = MetricData.more a)"
  by (simp add: ForEachSeriesDo_def seriesTemplate_def)

text \<open>The theorem at the inputs \<open>[A, B]\<close>, with a transform that reverses the samples.\<close>

theorem ForEachSeriesDo_in_order_witness:
  "ForEachSeriesDo
     (\<lambda>arg from until vals. ([exampleSeries ''A'', exampleSeries ''B''], None))
     (Expr EtFunc ''f'' [Expr EtName ''x'' [] ''''] ''x'') 0 60 () exampleTransform
   = Inr (Inr [\<lparr>Name = ''f(A)'', StartTime = 0, StopTime = 20, StepTime = 10, Values = [NaN, Finite 1]\<rparr>,
               \<lparr>Name = ''f(B)'', StartTime = 0, StopTime = 20, StepTime = 10, Values = [NaN, Finite 1]\<rparr>])"
proof -
  let ?ev = "\<lambda>(arg::expr) (from::int64) (until::int64) (vals::unit).
               ([exampleSeries ''A'', exampleSeries ''B''], None :: error option)"
  have a: "Args (Expr EtFunc ''f'' [Expr EtName ''x'' [] ''''] ''x'') = Expr EtName ''x'' [] '''' # []"
    by simp
  have g: "GetSeriesArg ?ev (Expr EtName ''x'' [] '''') 0 60 () = Inr [exampleSeries ''A'', exampleSeries ''B'']"
    by (simp add: GetSeriesArg_def IsName_def)
  from ForEachSeriesDo_in_order [OF a g, of exampleTransform]
  show ?thesis
    by (simp add: seriesTemplate_def exampleTransform_def exampleSeries_def)
qed

section \<open>Properties of the name extractor\<close>

declare ExtractMetric_loop.simps [simp del]

text \<open>The sample of the comment in the source: \<open>bla(bla{bl,a}b[la,b]la) => bla{bl,a}b[la\<close>.\<close>

lemma ExtractMetric_source_sample:
  "ExtractMetric exampleIsNameChar (\<lambda>r. False) ''bla(bla{bl,a}b[la,b]la)'' = Inr ''bla{bl,a}b[la''"
  by (simp add: ExtractMetric_def ExtractMetric_loop.simps exampleIsNameChar_def DecodeRuneInString_def)

text \<open>
  Claim C6. At a byte the classifier does not take as a name character: a semicolon or a
  closing parenthesis ends the scan at that position (the result is cut there); an
  opening brace increments the nesting counter; a closing brace decrements the counter
  when it is greater than zero and ends the scan when it is zero; a comma ends the scan
  when the counter is zero and is passed over otherwise. With a classifier that takes
  the letters and the dot and none of brace, closing brace and comma,
  \<open>ExtractMetric "host.{a,b}.load,rest"\<close> is \<open>"host.{a,b}.load"\<close>.
\<close>

theorem ExtractMetric_scanning:
  "(i < length s \<and> \<not> IsNameChar (s ! i) \<longrightarrow>
      (s ! i = CHR '';'' \<or> s ! i = CHR '')'' \<longrightarrow>
         ExtractMetric_loop IsNameChar InRangeTables s start braces i = (start, i))
    \<and> (s ! i = CHR ''{'' \<longrightarrow>
         ExtractMetric_loop IsNameChar InRangeTables s start braces i
           = ExtractMetric_loop IsNameChar InRangeTables s start (braces + 1) (i + 1))
    \<and> (s ! i = CHR ''}'' \<longrightarrow>
         ExtractMetric_loop IsNameChar InRangeTables s start braces i
           = (if 0 < braces then ExtractMetric_loop IsNameChar InRangeTables s start (braces - 1) (i + 1)
              else (start, i)))
    \<and> (s ! i = CHR '','' \<longrightarrow>
         ExtractMetric_loop IsNameChar InRangeTables s start braces i
           = (if braces = 0 then (start, i)
              else ExtractMetric_loop IsNameChar InRangeTables s start braces (i + 1))))
   \<and> ((\<forall>c \<in> set ''host.abload''. IsNameChar c)
        \<and> \<not> IsNameChar CHR ''{'' \<and> \<not> IsNameChar CHR ''}'' \<and> \<not> IsNameChar CHR '','' \<longrightarrow>
      ExtractMetric IsNameChar InRangeTables ''host.{a,b}.load,rest'' = Inr ''host.{a,b}.load'')"
proof (intro conjI impI)
  assume "(\<forall>c \<in> set ''host.abload''. IsNameChar c)
        \<and> \<not> IsNameChar CHR ''{'' \<and> \<not> IsNameChar CHR ''}'' \<and> \<not> IsNameChar CHR '',''"
  then show "ExtractMetric IsNameChar InRangeTables ''host.{a,b}.load,rest'' = Inr ''host.{a,b}.load''"
    by (simp add: ExtractMetric_def ExtractMetric_loop.simps)
qed (auto simp: ExtractMetric_loop.simps [of _ _ s start braces i])

text \<open>
  The theorem at each of the five characters, and the brace group example under the
  classifier above.
\<close>

theorem ExtractMetric_scanning_witness:
  "ExtractMetric_loop exampleIsNameChar (\<lambda>r. False) ''host.cpu;dc=east)'' 0 0 8 = (0, 8)
   \<and> ExtractMetric_loop exampleIsNameChar (\<lambda>r. False) ''host.cpu.load)'' 0 0 13 = (0, 13)
   \<and> ExtractMetric_loop exampleIsNameChar (\<lambda>r. False) ''a{b,c}'' 0 0 1
        = ExtractMetric_loop exampleIsNameChar (\<lambda>r. False) ''a{b,c}'' 0 (0 + 1) (1 + 1)
   \<and> ExtractMetric_loop exampleIsNameChar (\<lambda>r. False) ''a{b,c}'' 0 1 5
        = ExtractMetric_loop exampleIsNameChar (\<lambda>r. False) ''a{b,c}'' 0 (1 - 1) (5 + 1)
   \<and> ExtractMetric_loop exampleIsNameChar (\<lambda>r. False) ''a}b'' 0 0 1 = (0, 1)
   \<and> ExtractMetric_loop exampleIsNameChar (\<lambda>r. False) ''a{b,c}'' 0 1 3
        = ExtractMetric_loop exampleIsNameChar (\<lambda>r. False) ''a{b,c}'' 0 1 (3 + 1)
   \<and> ExtractMetric_loop exampleIsNameChar (\<lambda>r. False) ''a,b'' 0 0 1 = (0, 1)
   \<and> ExtractMetric exampleIsNameChar (\<lambda>r. False) ''host.{a,b}.load,rest'' = Inr ''host.{a,b}.load''"
proof -
  note th = ExtractMetric_scanning [where IsNameChar = exampleIsNameChar and InRangeTables = "\<lambda>r. False"]
  have 1: "ExtractMetric_loop exampleIsNameChar (\<lambda>r. False) ''host.cpu;dc=east)'' 0 0 8 = (0, 8)"
    using th [where s = "''host.cpu;dc=east)''" and i = 8 and start = 0 and braces = 0]
    by (simp add: exampleIsNameChar_def)
  have 2: "ExtractMetric_loop exampleIsNameChar (\<lambda>r. False) ''host.cpu.load)'' 0 0 13 = (0, 13)"
    using th [where s = "''host.cpu.load)''" and i = 13 and start = 0 and braces = 0]
    by (simp add: exampleIsNameChar_def)
  have 3: "ExtractMetric_loop exampleIsNameChar (\<lambda>r. False) ''a{b,c}'' 0 0 1
        = ExtractMetric_loop exampleIsNameChar (\<lambda>r. False) ''a{b,c}'' 0 (0 + 1) (1 + 1)"
    using th [where s = "''a{b,c}''" and i = 1 and start = 0 and braces = 0]
    by (simp add: exampleIsNameChar_def)
  have 4: "ExtractMetric_loop exampleIsNameChar (\<lambda>r. False) ''a{b,c}'' 0 1 5
        = ExtractMetric_loop exampleIsNameChar (\<lambda>r. False) ''a{b,c}'' 0 (1 - 1) (5 + 1)"
    using th [where s = "''a{b,c}''" and i = 5 and start = 0 and braces = 1]
    by (simp add: exampleIsNameChar_def)
  have 5: "ExtractMetric_loop exampleIsNameChar (\<lambda>r. False) ''a}b'' 0 0 1 = (0, 1)"
    using th [where s = "''a}b''" and i = 1 and start = 0 and braces = 0]
    by (simp add: exampleIsNameChar_def)
  have 6: "ExtractMetric_loop exampleIsNameChar (\<lambda>r. False) ''a{b,c}'' 0 1 3
        = ExtractMetric_loop exampleIsNameChar (\<lambda>r. False) ''a{b,c}'' 0 1 (3 + 1)"
    using th [where s = "''a{b,c}''" and i = 3 and start = 0 and braces = 1]
    by (simp add: exampleIsNameChar_def)
  have 7: "ExtractMetric_loop exampleIsNameChar (\<lambda>r. False) ''a,b'' 0 0 1 = (0, 1)"
    using th [where s = "''a,b''" and i = 1 and start = 0 and braces = 0]
    by (simp add: exampleIsNameChar_def)
  have 8: "ExtractMetric exampleIsNameChar (\<lambda>r. False) ''host.{a,b}.load,rest'' = Inr ''host.{a,b}.load''"
    using th by (simp add: exampleIsNameChar_def)
  from 1 2 3 4 5 6 7 8 show ?thesis by blast
qed

text \<open>
  Claim C9 fails on the code for a character of several bytes. The default case sets
  \<open>start = i + 1\<close>, one byte on, while the loop moves on by the width \<open>w\<close> of the rune. With
  no range table configured, the two-byte character U+00E9 (bytes C3 A9) before \<open>ab\<close> is
  rejected, and its second byte stays in the returned name.
\<close>

theorem ExtractMetric_multibyte_start:
  "DecodeRuneInString [CHR 0xC3, CHR 0xA9, CHR ''a'', CHR ''b''] = (0xE9, 2)
   \<and> ExtractMetric exampleIsNameChar (\<lambda>r. False) [CHR 0xC3, CHR 0xA9, CHR ''a'', CHR ''b'']
       = Inr [CHR 0xA9, CHR ''a'', CHR ''b'']"
  by (simp add: ExtractMetric_def ExtractMetric_loop.simps exampleIsNameChar_def DecodeRuneInString_def)

section \<open>Properties of the aligner\<close>

subsection \<open>Signed arithmetic without overflow\<close>

lemma sint_sub_small: "small a \<Longrightarrow> small b \<Longrightarrow> sint (a - b) = sint a - sint b"
  unfolding small_def sint_word_diff
  by (rule signed_take_bit_int_eq_self) simp_all

lemma div64_nonneg:
  assumes "0 < sint b" and "0 \<le> sint a"
  shows "div64 a b = Inr (word_of_int (sint a div sint b))"
    and "sint (word_of_int (sint a div sint b) :: int64) = sint a div sint b"
proof -
  from assms have b: "b \<noteq> 0" by auto
  from assms have "sint a sdiv sint b = sint a div sint b"
    by (simp add: signed_divide_int_def sgn_if)
  with b show "div64 a b = Inr (word_of_int (sint a div sint b))"
    by (simp add: div64_def)
  have "sint a div sint b \<le> sint a"
    using zdiv_mono2 [of "sint a" 1 "sint b"] assms by simp
  moreover have "sint a < 2 ^ 63" using sint_lt [of a] by simp
  moreover have "0 \<le> sint a div sint b" using assms by (simp add: pos_imp_zdiv_nonneg_iff)
  ultimately show "sint (word_of_int (sint a div sint b) :: int64) = sint a div sint b"
    by (simp add: sint_sbintrunc' signed_take_bit_int_eq_self)
qed

subsection \<open>Padding a regular series\<close>

lemma padStart_regular:
  assumes "regular a" and "small m" and "\<not> StartTime a <s m"
  shows "padStart m a =
           Inr (a\<lparr>Values := replicate (padCount (StartTime a) m (StepTime a)) (Finite 0) @ Values a,
                 StartTime := m\<rparr>)"
proof (cases "m <s StartTime a")
  case True
  from assms have s: "0 < sint (StepTime a)" and sa: "small (StartTime a)"
    by (simp_all add: regular_def word_sless_alt)
  from True have lt: "sint m < sint (StartTime a)" by (simp add: word_sless_alt)
  have d: "sint (StartTime a - m) = sint (StartTime a) - sint m"
    using sa assms(2) by (rule sint_sub_small)
  with lt have nn: "0 \<le> sint (StartTime a - m)" by simp
  with s d have q: "0 \<le> (sint (StartTime a) - sint m) div sint (StepTime a)"
    by (simp add: pos_imp_zdiv_nonneg_iff)
  from div64_nonneg [OF s nn] d True q show ?thesis
    by (simp add: padStart_def make_float64_def padCount_def)
next
  case False
  with assms(3) have "sint m = sint (StartTime a)" by (simp add: word_sless_alt)
  then have "m = StartTime a" by (rule signed_word_eqI)
  with False show ?thesis by (simp add: padStart_def padCount_def)
qed

lemma padStop_regular:
  assumes "regular a" and "small m" and "\<not> m <s StopTime a"
  shows "padStop m a =
           Inr (a\<lparr>Values := Values a @ replicate (padCount m (StopTime a) (StepTime a)) (Finite 0),
                 StopTime := m\<rparr>)"
proof (cases "StopTime a <s m")
  case True
  from assms have s: "0 < sint (StepTime a)" and sa: "small (StopTime a)"
    by (simp_all add: regular_def word_sless_alt)
  from True have lt: "sint (StopTime a) < sint m" by (simp add: word_sless_alt)
  have d: "sint (m - StopTime a) = sint m - sint (StopTime a)"
    using assms(2) sa by (rule sint_sub_small)
  with lt have nn: "0 \<le> sint (m - StopTime a)" by simp
  with s d have q: "0 \<le> (sint m - sint (StopTime a)) div sint (StepTime a)"
    by (simp add: pos_imp_zdiv_nonneg_iff)
  from div64_nonneg [OF s nn] d True q show ?thesis
    by (simp add: padStop_def make_float64_def padCount_def)
next
  case False
  with assms(3) have "sint m = sint (StopTime a)" by (simp add: word_sless_alt)
  then have "m = StopTime a" by (rule signed_word_eqI)
  with False show ?thesis by (simp add: padStop_def padCount_def)
qed

lemma padArg_regular:
  assumes "regular a" and "small ms" and "small mx"
  shows "padArg (mv, ms, mx) a =
           Inr ((max mv (length (Values a)), smin (StartTime a) ms, smax mx (StopTime a)),
                padded (smin (StartTime a) ms) (smax mx (StopTime a)) a)"
proof -
  let ?ms = "smin (StartTime a) ms" and ?mx = "smax mx (StopTime a)"
  from assms have sms: "small ?ms" and smx: "small ?mx"
    by (simp_all add: smin_def smax_def regular_def)
  have n1: "\<not> StartTime a <s ?ms" by (simp add: smin_def word_sless_alt)
  from padStart_regular [OF assms(1) sms n1]
  have p1: "padStart ?ms a =
           Inr (a\<lparr>Values := replicate (padCount (StartTime a) ?ms (StepTime a)) (Finite 0) @ Values a,
                 StartTime := ?ms\<rparr>)" .
  let ?a1 = "a\<lparr>Values := replicate (padCount (StartTime a) ?ms (StepTime a)) (Finite 0) @ Values a,
                 StartTime := ?ms\<rparr>"
  from assms(1) sms have r1: "regular ?a1" by (simp add: regular_def)
  have n2: "\<not> ?mx <s StopTime ?a1" by (simp add: smax_def word_sless_alt)
  from padStop_regular [OF r1 smx n2]
  have p2: "padStop ?mx ?a1 = Inr (padded ?ms ?mx a)" by (simp add: padded_def)
  have st: "StopTime ?a1 = StopTime a" by simp
  have mv: "(if mv < length (Values a) then length (Values a) else mv) = max mv (length (Values a))"
    by simp
  have "padArg (mv, ms, mx) a =
          (case padStart ?ms a of
             Inl e \<Rightarrow> Inl e
           | Inr arg1 \<Rightarrow>
               (case padStop (smax mx (StopTime arg1)) arg1 of
                  Inl e \<Rightarrow> Inl e
                | Inr arg2 \<Rightarrow>
                    Inr ((max mv (length (Values a)), ?ms, smax mx (StopTime arg1)), arg2)))"
    unfolding padArg_def Let_def prod.case smin_def smax_def mv ..
  also have "\<dots> = Inr ((max mv (length (Values a)), ?ms, ?mx), padded ?ms ?mx a)"
    unfolding p1 sum.case st p2 ..
  finally show ?thesis .
qed

lemma small_smin: "small a \<Longrightarrow> small b \<Longrightarrow> small (smin a b)"
  by (simp add: smin_def)

lemma small_smax: "small a \<Longrightarrow> small b \<Longrightarrow> small (smax a b)"
  by (simp add: smax_def)

lemma regular_padded: "regular a \<Longrightarrow> small ms \<Longrightarrow> small mx \<Longrightarrow> regular (padded ms mx a)"
  by (simp add: regular_def padded_def)

lemma padArgs_regular:
  assumes "\<forall>p \<in> S. p < length h \<and> regular (h ! p)" and "set ps \<subseteq> S"
    and "small ms" and "small mx"
  shows "\<exists>h' mv' ms' mx'. padArgs h (mv, ms, mx) ps = Inr (h', (mv', ms', mx'))
           \<and> length h' = length h \<and> (\<forall>p \<in> S. regular (h' ! p)) \<and> small ms' \<and> small mx'
           \<and> (\<forall>q. q \<notin> set ps \<longrightarrow> h' ! q = h ! q)"
  using assms
proof (induction ps arbitrary: h mv ms mx)
  case Nil
  then show ?case by simp
next
  case (Cons p ps)
  let ?a = "h ! p"
  let ?ms = "smin (StartTime ?a) ms" and ?mx = "smax mx (StopTime ?a)"
  let ?h = "h[p := padded ?ms ?mx ?a]"
  from Cons.prems have p: "p < length h" and r: "regular ?a" by auto
  from r Cons.prems have sms: "small ?ms" and smx: "small ?mx"
    by (simp_all add: small_smin small_smax regular_def)
  have step: "padArgs h (mv, ms, mx) (p # ps) = padArgs ?h (max mv (length (Values ?a)), ?ms, ?mx) ps"
    using p padArg_regular [OF r Cons.prems(3) Cons.prems(4), of mv] by (simp add: deref_def)
  have "regular (?h ! q)" if "q \<in> S" for q
  proof (cases "q = p")
    case True
    with p r sms smx show ?thesis by (simp add: regular_padded)
  next
    case False
    with that Cons.prems(1) show ?thesis by simp
  qed
  with Cons.prems(1) have inv: "\<forall>q \<in> S. q < length ?h \<and> regular (?h ! q)" by simp
  from Cons.prems have sub: "set ps \<subseteq> S" by simp
  from Cons.IH [OF inv sub sms smx, of "max mv (length (Values ?a))"]
  obtain h' mv' ms' mx' where
    res: "padArgs ?h (max mv (length (Values ?a)), ?ms, ?mx) ps = Inr (h', (mv', ms', mx'))"
    and len: "length h' = length ?h" and reg: "\<forall>p \<in> S. regular (h' ! p)"
    and sm: "small ms'" "small mx'" and frame: "\<forall>q. q \<notin> set ps \<longrightarrow> h' ! q = ?h ! q"
    by blast
  from frame have "\<forall>q. q \<notin> set (p # ps) \<longrightarrow> h' ! q = h ! q" by simp
  with step res len reg sm show ?case by simp
qed

subsection \<open>The panics of the padding passes\<close>

lemma padStart_panics: "padStart m a = Inl e \<Longrightarrow> e = DivideByZero \<or> e = MakeSliceLenOutOfRange"
  by (auto simp: padStart_def div64_def make_float64_def split: if_splits sum.splits)

lemma padStop_panics: "padStop m a = Inl e \<Longrightarrow> e = DivideByZero \<or> e = MakeSliceLenOutOfRange"
  by (auto simp: padStop_def div64_def make_float64_def split: if_splits sum.splits)

lemma padArg_panics: "padArg st a = Inl e \<Longrightarrow> e = DivideByZero \<or> e = MakeSliceLenOutOfRange"
  by (auto simp: padArg_def Let_def split: prod.splits sum.splits dest: padStart_panics padStop_panics)

lemma padArgs_panics:
  "padArgs h st ps = Inl e \<Longrightarrow> e = NilDereference \<or> e = DivideByZero \<or> e = MakeSliceLenOutOfRange"
proof (induction ps arbitrary: h st)
  case Nil
  then show ?case by simp
next
  case (Cons p ps)
  then show ?case
    by (auto simp: deref_def split: if_splits sum.splits prod.splits dest: padArg_panics)
qed

lemma AlignSeries_padding_only:
  "args \<noteq> [] \<Longrightarrow>
   AlignSeries False h args =
     (case deref h (hd args) of
        Inl e \<Rightarrow> Inl e
      | Inr a0 \<Rightarrow>
          (case padArgs h (0, StartTime a0, StopTime a0) args of
             Inl e \<Rightarrow> Inl e
           | Inr (h1, st1) \<Rightarrow>
               (case padArgs h1 st1 args of
                  Inl e \<Rightarrow> Inl e
                | Inr (h2, st2) \<Rightarrow> Inr (h2, args))))"
  by (cases args)
     (simp_all add: AlignSeries_def alignPass_def del: padArgs.simps split: sum.splits prod.splits)

lemmas align_eval = AlignSeries_def alignPass_def padArg_def padStart_def padStop_def deref_def
  div64_def make_float64_def word_sless_alt

text \<open>
  Claim C1 fails on the code, against the comment of \<open>AlignSeries\<close> itself (``it only
  prepends and appends NaNs''): the padding is built with \<open>make([]float64, valCnt)\<close>, whose
  samples are \<open>0\<close>. Series \<open>B\<close> starts one step after \<open>A\<close> and stops one step before it; after
  the call it holds \<open>0, 5, 0\<close>, not \<open>NaN, 5, NaN\<close>. The counts and the place of the original
  values are as the claim says.
\<close>

theorem AlignSeries_pads_with_zero:
  "AlignSeries False
     [\<lparr>Name = ''A'', StartTime = 0, StopTime = 30, StepTime = 10, Values = [Finite 1, Finite 2, Finite 3]\<rparr>,
      \<lparr>Name = ''B'', StartTime = 10, StopTime = 20, StepTime = 10, Values = [Finite 5]\<rparr>]
     [0, 1]
   = Inr ([\<lparr>Name = ''A'', StartTime = 0, StopTime = 30, StepTime = 10, Values = [Finite 1, Finite 2, Finite 3]\<rparr>,
           \<lparr>Name = ''B'', StartTime = 0, StopTime = 30, StepTime = 10, Values = [Finite 0, Finite 5, Finite 0]\<rparr>],
          [0, 1])
   \<and> Finite 0 \<noteq> NaN"
  by (simp add: align_eval)

text \<open>
  Claim C10, as amended. On the empty list \<open>AlignSeries\<close> panics, whatever the flag, with
  an index out of range at \<open>args[0]\<close>. On a non-empty list with extrapolation disabled no
  index or slice bound is ever out of range; the call can still panic on a \<open>nil\<close> element,
  on a division by a zero step, or on a negative count handed to \<open>make\<close>. It returns, with
  the slice it was given, the store as long as before and every object outside the
  list untouched, whenever every element points to a regular series.
\<close>

theorem AlignSeries_total:
  "AlignSeries ExtrapolatePoints h [] = Inl IndexOutOfRange
   \<and> (args \<noteq> [] \<longrightarrow>
        AlignSeries False h args \<noteq> Inl IndexOutOfRange
        \<and> AlignSeries False h args \<noteq> Inl SliceBoundsOutOfRange
        \<and> ((\<forall>p \<in> set args. p < length h \<and> regular (h ! p)) \<longrightarrow>
             (\<exists>h'. AlignSeries False h args = Inr (h', args) \<and> length h' = length h
                    \<and> (\<forall>q. q \<notin> set args \<longrightarrow> h' ! q = h ! q))))"
proof (intro conjI impI)
  show "AlignSeries ExtrapolatePoints h [] = Inl IndexOutOfRange"
    by (simp add: AlignSeries_def)
next
  assume ne: "args \<noteq> []"
  then obtain p0 rest where args: "args = p0 # rest" by (cases args) auto
  have pan: "e = NilDereference \<or> e = DivideByZero \<or> e = MakeSliceLenOutOfRange"
    if "AlignSeries False h args = Inl e" for e
    using that unfolding AlignSeries_padding_only [OF ne]
    by (auto simp: deref_def split: if_splits sum.splits prod.splits dest: padArgs_panics)
  from pan show "AlignSeries False h args \<noteq> Inl IndexOutOfRange" by fastforce
  from pan show "AlignSeries False h args \<noteq> Inl SliceBoundsOutOfRange" by fastforce
  assume inv: "\<forall>p \<in> set args. p < length h \<and> regular (h ! p)"
  then have p0: "p0 < length h" and r0: "regular (h ! p0)" by (auto simp: args)
  then have s0: "small (StartTime (h ! p0))" "small (StopTime (h ! p0))" by (simp_all add: regular_def)
  from padArgs_regular [OF inv subset_refl s0, of 0]
  obtain h1 mv1 ms1 mx1 where
    1: "padArgs h (0, StartTime (h ! p0), StopTime (h ! p0)) args = Inr (h1, (mv1, ms1, mx1))"
    and l1: "length h1 = length h" and r1: "\<forall>p \<in> set args. regular (h1 ! p)"
    and s1: "small ms1" "small mx1" and f1: "\<forall>q. q \<notin> set args \<longrightarrow> h1 ! q = h ! q"
    by blast
  from inv l1 r1 have inv1: "\<forall>p \<in> set args. p < length h1 \<and> regular (h1 ! p)" by simp
  from padArgs_regular [OF inv1 subset_refl s1, of mv1]
  obtain h2 mv2 ms2 mx2 where
    2: "padArgs h1 (mv1, ms1, mx1) args = Inr (h2, (mv2, ms2, mx2))"
    and l2: "length h2 = length h1" and f2: "\<forall>q. q \<notin> set args \<longrightarrow> h2 ! q = h1 ! q"
    by blast
  have "AlignSeries False h args = Inr (h2, args)"
    using p0 1 2 unfolding AlignSeries_padding_only [OF ne] by (simp add: args deref_def)
  with l1 l2 f1 f2
  show "\<exists>h'. AlignSeries False h args = Inr (h', args) \<and> length h' = length h
              \<and> (\<forall>q. q \<notin> set args \<longrightarrow> h' ! q = h ! q)"
    by simp
qed

text \<open>The theorem at the two series of \<open>exampleStore\<close>, and at the empty list.\<close>

theorem AlignSeries_total_witness:
  "regular (exampleStore ! 0) \<and> regular (exampleStore ! 1)
   \<and> AlignSeries False exampleStore [0, 1] \<noteq> Inl IndexOutOfRange
   \<and> (\<exists>h'. AlignSeries False exampleStore [0, 1] = Inr (h', [0, 1]) \<and> length h' = length exampleStore)
   \<and> AlignSeries True exampleStore [] = Inl IndexOutOfRange"
proof -
  have r: "regular (exampleStore ! 0)" "regular (exampleStore ! 1)"
    by (simp_all add: exampleStore_def regular_def small_def word_sless_alt)
  then have inv: "\<forall>p \<in> set [0, 1]. p < length exampleStore \<and> regular (exampleStore ! p)"
    by (simp add: exampleStore_def)
  have ne: "[0, 1 :: nat] \<noteq> []" by simp
  from AlignSeries_total [of True exampleStore "[0, 1]"] ne inv r show ?thesis by blast
qed

text \<open>
  The claim as stated fails: two series of step \<open>0\<close> with different starts are a non-empty
  list, and the padding divides by the step.
\<close>

theorem AlignSeries_total_counterexample:
  "AlignSeries False
     [\<lparr>Name = ''A'', StartTime = 0, StopTime = 20, StepTime = 0, Values = [Finite 1, Finite 2]\<rparr>,
      \<lparr>Name = ''B'', StartTime = 10, StopTime = 20, StepTime = 0, Values = [Finite 5]\<rparr>]
     [0, 1]
   = Inl DivideByZero"
  by code_simp

subsection \<open>Two series of equal step\<close>

lemma padded_self: "padded (StartTime a) (StopTime a) a = a"
  by (simp add: padded_def padCount_def)

lemma padArgs_pair:
  assumes "p < length h" and "q < length h" and "p \<noteq> q"
    and "regular (h ! p)" and "regular (h ! q)" and "small ms" and "small mx"
  shows "padArgs h (mv, ms, mx) [p, q] =
           Inr (h[p := padded (smin (StartTime (h ! p)) ms) (smax mx (StopTime (h ! p))) (h ! p),
                  q := padded (smin (StartTime (h ! q)) (smin (StartTime (h ! p)) ms))
                              (smax (smax mx (StopTime (h ! p))) (StopTime (h ! q))) (h ! q)],
                (max (max mv (length (Values (h ! p)))) (length (Values (h ! q))),
                 smin (StartTime (h ! q)) (smin (StartTime (h ! p)) ms),
                 smax (smax mx (StopTime (h ! p))) (StopTime (h ! q))))"
proof -
  let ?ms1 = "smin (StartTime (h ! p)) ms" and ?mx1 = "smax mx (StopTime (h ! p))"
  from assms have s1: "small ?ms1" "small ?mx1"
    by (simp_all add: small_smin small_smax regular_def)
  show ?thesis
    using assms(1,2,3) padArg_regular [OF assms(4) assms(6) assms(7), of mv]
      padArg_regular [OF assms(5) s1, of "max mv (length (Values (h ! p)))"]
    by (simp add: deref_def)
qed

lemma smin_simps:
  "smin a a = a" "a <s b \<Longrightarrow> smin a b = a" "a <s b \<Longrightarrow> smin b a = a"
  by (auto simp: smin_def word_sless_alt)

lemma smax_simps:
  "smax a a = a" "smax a (smax a b) = smax a b"
  "smax a b = smax b a" "smax (smax a b) c = smax a (smax b c)" "smax a (smax b c) = smax b (smax a c)"
  by (auto simp: smax_def word_sless_alt intro: signed_word_eqI signed_word_eqI [symmetric])

lemma sint_smax: "sint (smax a b) = max (sint a) (sint b)"
  by (simp add: smax_def word_sless_alt max_def)

lemma pad_lengths_agree:
  fixes T0 T1 S :: int and n0 n1 :: nat
  assumes "0 < S" and "T0 < T1" and "S dvd T1 - T0"
  shows "nat ((T0 - T0) div S) + n0 + nat ((max (T0 + int n0 * S) (T1 + int n1 * S) - (T0 + int n0 * S)) div S)
       = nat ((T1 - T0) div S) + n1 + nat ((max (T0 + int n0 * S) (T1 + int n1 * S) - (T1 + int n1 * S)) div S)"
proof -
  from assms(3) obtain D where D: "T1 - T0 = S * D" by (auto simp: dvd_def)
  with assms have Dpos: "0 < D" by (metis diff_gt_0_iff_gt zero_less_mult_pos)
  from D have T1: "T1 = T0 + D * S" by (simp add: algebra_simps)
  show ?thesis
  proof (cases "T0 + int n0 * S \<le> T1 + int n1 * S")
    case True
    then have le: "int n0 * S \<le> (D + int n1) * S" by (simp add: T1 algebra_simps)
    with assms(1) have le': "int n0 \<le> D + int n1" by (simp add: mult_le_cancel_right)
    have "(max (T0 + int n0 * S) (T1 + int n1 * S) - (T0 + int n0 * S)) = (D + int n1 - int n0) * S"
      using True by (simp add: T1 algebra_simps max_def)
    moreover have "(max (T0 + int n0 * S) (T1 + int n1 * S) - (T1 + int n1 * S)) = 0"
      using True by (simp add: max_def)
    moreover have "(T1 - T0) div S = D" using assms(1) by (simp add: T1)
    ultimately show ?thesis using assms(1) le' Dpos by simp
  next
    case False
    then have lt: "(D + int n1) * S < int n0 * S" by (simp add: T1 algebra_simps)
    with assms(1) have lt': "D + int n1 < int n0" by (simp add: mult_less_cancel_right)
    have "(max (T0 + int n0 * S) (T1 + int n1 * S) - (T1 + int n1 * S)) = (int n0 - D - int n1) * S"
      using False by (simp add: T1 algebra_simps max_def)
    moreover have "(max (T0 + int n0 * S) (T1 + int n1 * S) - (T0 + int n0 * S)) = 0"
      using False by (simp add: max_def)
    moreover have "(T1 - T0) div S = D" using assms(1) by (simp add: T1)
    ultimately show ?thesis using assms(1) lt' Dpos by simp
  qed
qed

text \<open>
  Claim C2, as amended. Two regular series of equal step \<open>s\<close>, the first starting before the
  second, each with as many samples as its bounds \<open>[t, t + n * s]\<close> say, and with starts
  that differ by a multiple of \<open>s\<close>: in either order of the list, \<open>AlignSeries\<close> without
  extrapolation returns the slice it was given, the store has the same objects at the
  same places, only the two series have changed, each is its former self padded with
  zeros to the earlier start and the later stop, and so both have the same start, the same
  stop and buffers of the same length.
\<close>

theorem AlignSeries_two_series:
  assumes p: "p0 < length h" "p1 < length h"
    and step: "StepTime (h ! p0) = s" "StepTime (h ! p1) = s" "0 <s s"
    and small: "small (StartTime (h ! p0))" "small (StopTime (h ! p0))"
               "small (StartTime (h ! p1))" "small (StopTime (h ! p1))"
    and start: "StartTime (h ! p0) <s StartTime (h ! p1)"
    and stop0: "sint (StopTime (h ! p0)) = sint (StartTime (h ! p0)) + int (length (Values (h ! p0))) * sint s"
    and stop1: "sint (StopTime (h ! p1)) = sint (StartTime (h ! p1)) + int (length (Values (h ! p1))) * sint s"
    and grid: "sint s dvd sint (StartTime (h ! p1)) - sint (StartTime (h ! p0))"
    and args: "args = [p0, p1] \<or> args = [p1, p0]"
  shows "\<exists>h'. AlignSeries False h args = Inr (h', args)
           \<and> length h' = length h
           \<and> (\<forall>q. q \<noteq> p0 \<longrightarrow> q \<noteq> p1 \<longrightarrow> h' ! q = h ! q)
           \<and> h' ! p0 = padded (StartTime (h ! p0)) (smax (StopTime (h ! p0)) (StopTime (h ! p1))) (h ! p0)
           \<and> h' ! p1 = padded (StartTime (h ! p0)) (smax (StopTime (h ! p0)) (StopTime (h ! p1))) (h ! p1)
           \<and> StartTime (h' ! p0) = StartTime (h' ! p1)
           \<and> StopTime (h' ! p0) = StopTime (h' ! p1)
           \<and> length (Values (h' ! p0)) = length (Values (h' ! p1))"
proof -
  let ?A = "h ! p0" and ?B = "h ! p1"
  let ?t = "StartTime ?A" and ?M = "smax (StopTime ?A) (StopTime ?B)"
  let ?A' = "padded ?t ?M ?A" and ?B' = "padded ?t ?M ?B"
  let ?h' = "h[p0 := ?A', p1 := ?B']"
  from start have ne: "p0 \<noteq> p1" by auto
  from step small have reg: "regular ?A" "regular ?B" by (simp_all add: regular_def)
  from small have sM: "small ?M" by (simp add: small_smax)
  have regA': "regular ?A'" and regB': "regular ?B'"
    using reg small(1) sM by (simp_all add: regular_padded)
  have fA': "StartTime ?A' = ?t" "StopTime ?A' = ?M" and fB': "StartTime ?B' = ?t" "StopTime ?B' = ?M"
    by (simp_all add: padded_def)
  have selfA: "padded ?t ?M ?A' = ?A'" using padded_self [of ?A'] by (simp only: fA')
  have selfB: "padded ?t ?M ?B' = ?B'" using padded_self [of ?B'] by (simp only: fB')
  have res: "AlignSeries False h args = Inr (?h', args)"
    using args
  proof
    assume a: "args = [p0, p1]"
    let ?h1 = "h[p0 := ?A, p1 := ?B']"
    have 1: "padArgs h (0, ?t, StopTime ?A) [p0, p1] = Inr (?h1, (max (max 0 (length (Values ?A))) (length (Values ?B)), ?t, ?M))"
      using padArgs_pair [OF p ne reg small(1) small(2), of 0] start
      by (simp add: smin_simps smax_simps padded_self del: padArgs.simps)
    have h1: "?h1 ! p0 = ?A" "?h1 ! p1 = ?B'" using p ne by simp_all
    have 2: "padArgs ?h1 (mv, ?t, ?M) [p0, p1] = Inr (?h', (max (max mv (length (Values ?A))) (length (Values ?B')), ?t, ?M))" for mv
      using padArgs_pair [of p0 ?h1 p1 ?t ?M mv] p ne reg regB' small(1) sM
      by (simp add: smin_simps smax_simps fB' selfB list_update_swap [of p0 p1] del: padArgs.simps)
    show ?thesis
      unfolding a using p 1 2 by (simp add: AlignSeries_def alignPass_def deref_def del: padArgs.simps)
  next
    assume a: "args = [p1, p0]"
    let ?h1 = "h[p1 := ?B, p0 := ?A']"
    have 1: "padArgs h (0, StartTime ?B, StopTime ?B) [p1, p0] = Inr (?h1, (max (max 0 (length (Values ?B))) (length (Values ?A)), ?t, ?M))"
      using padArgs_pair [OF p(2) p(1) ne [symmetric] reg(2) reg(1) small(3) small(4), of 0] start
      by (simp add: smin_simps padded_self smax_simps del: padArgs.simps)
    have h1: "?h1 ! p0 = ?A'" "?h1 ! p1 = ?B" using p ne by simp_all
    have 2: "padArgs ?h1 (mv, ?t, ?M) [p1, p0] = Inr (?h', (max (max mv (length (Values ?B))) (length (Values ?A')), ?t, ?M))" for mv
      using padArgs_pair [of p1 ?h1 p0 ?t ?M mv] p ne reg regA' small(1) sM start
      by (simp add: smin_simps smax_simps fA' selfA list_update_swap [of p0 p1] del: padArgs.simps)
    show ?thesis
      unfolding a using p 1 2 by (simp add: AlignSeries_def alignPass_def deref_def del: padArgs.simps)
  qed
  have vals: "?h' ! p0 = ?A'" "?h' ! p1 = ?B'" using p ne by simp_all
  have len: "length (Values ?A') = length (Values ?B')"
    using pad_lengths_agree [of "sint s" "sint ?t" "sint (StartTime ?B)" "length (Values ?A)" "length (Values ?B)"]
      step start grid stop0 stop1
    by (simp add: padded_def padCount_def sint_smax word_sless_alt)
  from res vals len fA' fB' show ?thesis by simp
qed

text \<open>The theorem at the two series of \<open>exampleStore\<close>, in both orders.\<close>

theorem AlignSeries_two_series_witness:
  "(\<exists>h'. AlignSeries False exampleStore [0, 1] = Inr (h', [0, 1])
         \<and> length h' = length exampleStore
         \<and> StartTime (h' ! 0) = StartTime (h' ! 1) \<and> StopTime (h' ! 0) = StopTime (h' ! 1)
         \<and> length (Values (h' ! 0)) = length (Values (h' ! 1)))
   \<and> (\<exists>h'. AlignSeries False exampleStore [1, 0] = Inr (h', [1, 0])
         \<and> length h' = length exampleStore
         \<and> StartTime (h' ! 0) = StartTime (h' ! 1) \<and> StopTime (h' ! 0) = StopTime (h' ! 1)
         \<and> length (Values (h' ! 0)) = length (Values (h' ! 1)))"
proof -
  have a: "\<exists>h'. AlignSeries False exampleStore [0, 1] = Inr (h', [0, 1])
         \<and> length h' = length exampleStore
         \<and> StartTime (h' ! 0) = StartTime (h' ! 1) \<and> StopTime (h' ! 0) = StopTime (h' ! 1)
         \<and> length (Values (h' ! 0)) = length (Values (h' ! 1))"
    using AlignSeries_two_series [of 0 exampleStore 1 10 "[0, 1]"]
    by (simp add: exampleStore_def small_def word_sless_alt) blast
  have b: "\<exists>h'. AlignSeries False exampleStore [1, 0] = Inr (h', [1, 0])
         \<and> length h' = length exampleStore
         \<and> StartTime (h' ! 0) = StartTime (h' ! 1) \<and> StopTime (h' ! 0) = StopTime (h' ! 1)
         \<and> length (Values (h' ! 0)) = length (Values (h' ! 1))"
    using AlignSeries_two_series [of 0 exampleStore 1 10 "[1, 0]"]
    by (simp add: exampleStore_def small_def word_sless_alt) blast
  from a b show ?thesis by (rule conjI)
qed

text \<open>
  The claim as stated fails when the starts are not a step's multiple apart: with step 10,
  \<open>A = [0, 100]\<close> of 10 samples and \<open>B = [5, 25]\<close> of 2 samples, \<open>B\<close> gets \<open>5 / 10 = 0\<close> samples
  in front and \<open>75 / 10 = 7\<close> behind, 9 in all against 10.
\<close>

theorem AlignSeries_lengths_counterexample:
  "AlignSeries False
     [\<lparr>Name = ''A'', StartTime = 0, StopTime = 100, StepTime = 10, Values = replicate 10 (Finite 1)\<rparr>,
      \<lparr>Name = ''B'', StartTime = 5, StopTime = 25, StepTime = 10, Values = replicate 2 (Finite 2)\<rparr>]
     [0, 1]
   = Inr ([\<lparr>Name = ''A'', StartTime = 0, StopTime = 100, StepTime = 10, Values = replicate 10 (Finite 1)\<rparr>,
           \<lparr>Name = ''B'', StartTime = 0, StopTime = 100, StepTime = 10,
              Values = replicate 2 (Finite 2) @ replicate 7 (Finite 0)\<rparr>],
          [0, 1])
   \<and> length (replicate 10 (Finite 1 :: float64)) \<noteq> length (replicate 2 (Finite 2 :: float64) @ replicate 7 (Finite 0))"
  by (simp add: align_eval)

subsection \<open>Extrapolation of a series with one sample\<close>

lemma extrapolateArg_short:
  assumes "m <s StepTime arg" and "length (Values arg) \<le> 1"
  shows "extrapolateArg m arg = Inl IndexOutOfRange \<or> extrapolateArg m arg = Inl MakeSliceLenOutOfRange"
proof -
  from assms(1) have "\<not> StepTime arg <s m" by (simp add: word_sless_alt)
  with assms show ?thesis
    by (cases "length (Values arg) = 0")
       (auto simp: extrapolateArg_def Let_def make_float64_def split: sum.splits)
qed

lemma ceiling_div_bounds:
  fixes a b :: int
  assumes "0 < b" and "0 \<le> a"
  shows "0 \<le> \<lceil>(of_int a :: rat) / of_int b\<rceil>" and "\<lceil>(of_int a :: rat) / of_int b\<rceil> \<le> a"
proof -
  from assms have q0: "0 \<le> (of_int a :: rat) / of_int b" by simp
  then show "0 \<le> \<lceil>(of_int a :: rat) / of_int b\<rceil>" by (simp add: zero_le_ceiling)
  from assms have "a * 1 \<le> a * b" by (intro mult_left_mono) simp_all
  then have "(of_int a :: rat) \<le> of_int (a * b)" by (simp only: of_int_le_iff mult_1_right)
  with assms(1) have "(of_int a :: rat) / of_int b \<le> of_int a"
    by (simp add: divide_le_eq)
  then show "\<lceil>(of_int a :: rat) / of_int b\<rceil> \<le> a" by (simp add: ceiling_le_iff)
qed

lemma valsCnt_nonneg:
  assumes "0 < sint m" and "0 \<le> sint d"
  shows "0 \<le> sint (int_of_float64 (fceil (fdiv (float64_of_int64 d) (float64_of_int64 m))))"
proof -
  define a b where "a = sint d" and "b = sint m"
  let ?c = "\<lceil>(of_int a :: rat) / of_int b\<rceil>"
  from assms have ab: "0 < b" "0 \<le> a" by (simp_all add: a_def b_def)
  from ceiling_div_bounds [OF ab] have c0: "0 \<le> ?c" and ca: "?c \<le> a" .
  have "a < 2 ^ 63" using sint_lt [of d] by (simp add: a_def)
  with ca have hi: "?c < 2 ^ 63" by (rule le_less_trans)
  from ab have b0: "(of_int b :: rat) \<noteq> 0" by simp
  have "fdiv (Finite (of_int a)) (Finite (of_int b)) = Finite (of_int a / of_int b)"
    using b0 by simp
  then have "int_of_float64 (fceil (fdiv (Finite (of_int a)) (Finite (of_int b)))) = word_of_int ?c"
    using c0 hi by (simp add: int_of_float64_def Let_def)
  moreover have "sint (word_of_int ?c :: int64) = ?c"
    using c0 hi by (simp add: sint_sbintrunc' signed_take_bit_int_eq_self)
  ultimately show ?thesis
    using c0 unfolding float64_of_int64_def a_def b_def by simp
qed

lemma extrapolateArg_single_sample:
  assumes "m <s StepTime arg" and "length (Values arg) = 1"
    and "0 <s m" and "0 \<le> sint (StopTime arg - StartTime arg)"
  shows "extrapolateArg m arg = Inl IndexOutOfRange"
proof -
  from assms(1) have n: "\<not> StepTime arg <s m" by (simp add: word_sless_alt)
  from assms(3) have "0 < sint m" by (simp add: word_sless_alt)
  from valsCnt_nonneg [OF this assms(4)] n assms(1,2) show ?thesis
    by (simp add: extrapolateArg_def Let_def make_float64_def)
qed

lemma extrapolateArgs_same_step:
  "(\<forall>q \<in> set pre. q < length h \<and> StepTime (h ! q) = m)
   \<Longrightarrow> extrapolateArgs h m (pre @ rest) = extrapolateArgs h m rest"
  by (induction pre) (simp_all add: deref_def extrapolateArg_def)

lemma AlignSeries_extrapolation_panics:
  assumes "pre \<noteq> []"
    and "\<forall>q \<in> set pre. q < length h \<and> StepTime (h ! q) = StepTime (h ! hd pre)"
    and "p < length h"
    and "extrapolateArg (StepTime (h ! hd pre)) (h ! p) = Inl e"
  shows "AlignSeries True h (pre @ p # post) = Inl e"
proof -
  from assms(1) obtain q0 rest where pre: "pre = q0 # rest" by (cases pre) auto
  with assms(2) have q0: "q0 < length h" by simp
  have "extrapolateArgs h (StepTime (h ! hd pre)) (pre @ p # post) = Inl e"
    unfolding extrapolateArgs_same_step [OF assms(2)] using assms(3,4) by (simp add: deref_def)
  then show ?thesis
    using q0 by (simp add: AlignSeries_def alignPass_def pre deref_def del: extrapolateArgs.simps)
qed

text \<open>
  Claim C5, as amended. The extrapolation has no case for a series with one sample: such
  a series whose step exceeds the running minimum step makes the block panic, on the
  read of \<open>arg.Values[1]\<close> or before it in \<open>make\<close> when the computed count is negative;
  with a positive minimum step and a stop not before the start it is the read of
  \<open>arg.Values[1]\<close>. So does \<open>AlignSeries\<close> with the flag set, on a list whose series before
  that one all have the step of the first.
\<close>

theorem AlignSeries_single_sample:
  "(m <s StepTime arg \<and> length (Values arg) = 1 \<longrightarrow>
      (extrapolateArg m arg = Inl IndexOutOfRange \<or> extrapolateArg m arg = Inl MakeSliceLenOutOfRange)
      \<and> (0 <s m \<and> 0 \<le> sint (StopTime arg - StartTime arg) \<longrightarrow>
           extrapolateArg m arg = Inl IndexOutOfRange))
   \<and> (pre \<noteq> [] \<and> (\<forall>q \<in> set pre. q < length h \<and> StepTime (h ! q) = StepTime (h ! hd pre))
        \<and> p < length h \<and> StepTime (h ! hd pre) <s StepTime (h ! p) \<and> length (Values (h ! p)) = 1 \<longrightarrow>
      (AlignSeries True h (pre @ p # post) = Inl IndexOutOfRange
         \<or> AlignSeries True h (pre @ p # post) = Inl MakeSliceLenOutOfRange)
      \<and> (0 <s StepTime (h ! hd pre) \<and> 0 \<le> sint (StopTime (h ! p) - StartTime (h ! p)) \<longrightarrow>
           AlignSeries True h (pre @ p # post) = Inl IndexOutOfRange))"
proof (intro conjI impI; (elim conjE)?)
  assume "m <s StepTime arg" and "length (Values arg) = 1"
  then show "extrapolateArg m arg = Inl IndexOutOfRange \<or> extrapolateArg m arg = Inl MakeSliceLenOutOfRange"
    by (simp add: extrapolateArg_short)
next
  assume "m <s StepTime arg" and "length (Values arg) = 1" and "0 <s m"
    and "0 \<le> sint (StopTime arg - StartTime arg)"
  then show "extrapolateArg m arg = Inl IndexOutOfRange"
    by (rule extrapolateArg_single_sample)
next
  assume a: "pre \<noteq> []" "\<forall>q \<in> set pre. q < length h \<and> StepTime (h ! q) = StepTime (h ! hd pre)"
    "p < length h" and s: "StepTime (h ! hd pre) <s StepTime (h ! p)" and l: "length (Values (h ! p)) = 1"
  from extrapolateArg_short [OF s] l
  have "extrapolateArg (StepTime (h ! hd pre)) (h ! p) = Inl IndexOutOfRange
        \<or> extrapolateArg (StepTime (h ! hd pre)) (h ! p) = Inl MakeSliceLenOutOfRange" by simp
  with AlignSeries_extrapolation_panics [OF a]
  show "AlignSeries True h (pre @ p # post) = Inl IndexOutOfRange
         \<or> AlignSeries True h (pre @ p # post) = Inl MakeSliceLenOutOfRange" by blast
next
  assume a: "pre \<noteq> []" "\<forall>q \<in> set pre. q < length h \<and> StepTime (h ! q) = StepTime (h ! hd pre)"
    "p < length h" and s: "StepTime (h ! hd pre) <s StepTime (h ! p)" and l: "length (Values (h ! p)) = 1"
    and "0 <s StepTime (h ! hd pre)" "0 \<le> sint (StopTime (h ! p) - StartTime (h ! p))"
  from extrapolateArg_single_sample [OF s l this(6,7)] AlignSeries_extrapolation_panics [OF a]
  show "AlignSeries True h (pre @ p # post) = Inl IndexOutOfRange" by blast
qed

text \<open>
  The theorem at \<open>coarseStore\<close>: two series of step 10, then one of step 40 with one sample.
\<close>

theorem AlignSeries_single_sample_witness:
  "extrapolateArg 10 (coarseStore ! 2) = Inl IndexOutOfRange
   \<and> AlignSeries True coarseStore ([0, 1] @ 2 # []) = Inl IndexOutOfRange"
proof -
  have 1: "10 <s StepTime (coarseStore ! 2) \<and> length (Values (coarseStore ! 2)) = 1"
    by (simp add: coarseStore_def word_sless_alt)
  have 2: "0 <s (10 :: int64) \<and> 0 \<le> sint (StopTime (coarseStore ! 2) - StartTime (coarseStore ! 2))"
    by (simp add: coarseStore_def word_sless_alt)
  have 3: "[0, 1 :: nat] \<noteq> [] \<and> (\<forall>q \<in> set [0, 1]. q < length coarseStore
              \<and> StepTime (coarseStore ! q) = StepTime (coarseStore ! hd [0, 1]))
        \<and> 2 < length coarseStore \<and> StepTime (coarseStore ! hd [0, 1]) <s StepTime (coarseStore ! 2)
        \<and> length (Values (coarseStore ! 2)) = 1"
    by (simp add: coarseStore_def word_sless_alt)
  have 4: "0 <s StepTime (coarseStore ! hd [0, 1])
        \<and> 0 \<le> sint (StopTime (coarseStore ! 2) - StartTime (coarseStore ! 2))"
    by (simp add: coarseStore_def word_sless_alt)
  from AlignSeries_single_sample [of 10 "coarseStore ! 2" "[0, 1]" coarseStore 2 "[]"] 1 2 3 4
  show ?thesis by blast
qed

text \<open>
  The claim as stated fails: with the flag set, a series of step 20 with one sample after
  a series of step 10 is neither padded with \<open>NaN\<close> nor kept; the call panics.
\<close>

theorem AlignSeries_single_sample_counterexample:
  "AlignSeries True
     [\<lparr>Name = ''A'', StartTime = 0, StopTime = 20, StepTime = 10, Values = [Finite 1, Finite 2]\<rparr>,
      \<lparr>Name = ''B'', StartTime = 0, StopTime = 20, StepTime = 20, Values = [Finite 5]\<rparr>]
     [0, 1]
   = Inl IndexOutOfRange"
  by (simp add: align_eval extrapolateArg_def float64_of_int64_def int_of_float64_def)

section \<open>Properties of the aggregation\<close>

lemma collectValues_samplesAt:
  "(\<forall>p \<in> set args. p < length h \<and> i < length (Values (h ! p)))
   \<Longrightarrow> collectValues h vs args i = Inr (vs @ samplesAt h args i)"
  by (induction args arbitrary: vs) (simp_all add: samplesAt_def deref_def)

lemma aggregateLoop_upt:
  assumes "args \<noteq> []"
    and "\<forall>p \<in> set args. p < length h \<and> n \<le> length (Values (h ! p))"
    and "length rv = n" and "k \<le> n"
  shows "aggregateLoop function h args rv [k..<n]
           = Inr (take k rv @ map (\<lambda>i. function (samplesAt h args i)) [k..<n])"
  using assms(3,4)
proof (induction "n - k" arbitrary: k rv)
  case 0
  then show ?case by simp
next
  case (Suc d)
  then have kn: "k < n" by simp
  let ?g = "\<lambda>i. function (samplesAt h args i)"
  from assms(2) kn have "\<forall>p \<in> set args. p < length h \<and> k < length (Values (h ! p))"
    by fastforce
  then have c: "collectValues h [] args k = Inr (samplesAt h args k)"
    by (simp add: collectValues_samplesAt)
  from assms(1) have pos: "0 < length (samplesAt h args k)" by (simp add: samplesAt_def)
  let ?rv = "rv[k := ?g k]"
  have step: "aggregateLoop function h args rv [k..<n] = aggregateLoop function h args ?rv [Suc k..<n]"
    using kn c pos Suc.prems by (simp add: upt_conv_Cons)
  from Suc have d: "d = n - Suc k" and l: "length ?rv = n" and le: "Suc k \<le> n" by simp_all
  from Suc.hyps(1) [OF d l le]
  have "aggregateLoop function h args ?rv [Suc k..<n] = Inr (take (Suc k) ?rv @ map ?g [Suc k..<n])" .
  moreover have "take (Suc k) ?rv = take k rv @ [?g k]"
    using kn Suc.prems by (simp add: take_Suc_conv_app_nth)
  ultimately show ?case using step kn by (simp add: upt_conv_Cons)
qed

lemma AlignSeries_returns_args:
  "AlignSeries ep h args0 = Inr (h1, args) \<Longrightarrow> args = args0 \<and> args0 \<noteq> []"
  by (auto simp: AlignSeries_def split: list.splits sum.splits prod.splits)

text \<open>
  Claim C4, as amended. When the alignment returns and no aligned series is shorter than
  the first, \<open>AggregateSeries\<close> returns one pointer, to a new object of the store: a copy of
  the first aligned series in every field but the name, which is
  \<open>target(raw arguments)\<close>, and the values, which are as many as the first aligned series
  has, the one at index \<open>i\<close> being \<open>function\<close> applied to the samples at \<open>i\<close> of all inputs
  in order, as they are. The input list is not empty, so the collected list never is;
  the loop body on an empty list of series leaves \<open>NaN\<close>.
\<close>

theorem AggregateSeries_result:
  assumes "AlignSeries ExtrapolatePoints h args0 = Inr (h1, args)"
    and "\<forall>p \<in> set args. p < length h1 \<and> length (Values (h1 ! hd args)) \<le> length (Values (h1 ! p))"
  shows "AggregateSeries ExtrapolatePoints e h args0 function =
           Inr (h1 @ [(h1 ! hd args)
                        \<lparr>Name := Target e @ ''('' @ RawArgs e @ '')'',
                          Values := map (\<lambda>i. function (samplesAt h1 args i))
                                        [0..<length (Values (h1 ! hd args))]\<rparr>],
                [length h1])
         \<and> (\<forall>i rv. i < length rv \<longrightarrow>
               aggregateLoop function h1 [] rv [i] = Inr (rv[i := NaN]))"
proof -
  from AlignSeries_returns_args [OF assms(1)] have ne: "args \<noteq> []" by simp
  then obtain p0 rest where a: "args = p0 # rest" by (cases args) auto
  with assms(2) have p0: "p0 < length h1" by simp
  let ?n = "length (Values (h1 ! p0))"
  from aggregateLoop_upt [OF ne, of h1 ?n "replicate ?n (Finite 0)" 0 "function"] assms(2)
  have "aggregateLoop function h1 args (replicate ?n (Finite 0)) [0..<?n]
          = Inr (map (\<lambda>i. function (samplesAt h1 args i)) [0..<?n])"
    by (simp add: a)
  with assms(1) p0 show ?thesis
    by (simp add: AggregateSeries_def a deref_def del: aggregateLoop.simps upt.simps)
      (simp add: samplesAt_def)
qed

text \<open>
  The theorem at \<open>exampleStore\<close>: at the gap of \<open>A\<close> the sum skips the \<open>NaN\<close> it is handed.
\<close>

theorem AggregateSeries_result_witness:
  "AggregateSeries False (Expr EtFunc ''sumSeries'' [] ''A,B'') exampleStore [0, 1] exampleSum
   = Inr ([\<lparr>Name = ''A'', StartTime = 0, StopTime = 30, StepTime = 10, Values = [Finite 1, Finite 2, NaN]\<rparr>,
           \<lparr>Name = ''B'', StartTime = 0, StopTime = 30, StepTime = 10, Values = [Finite 0, Finite 5, Finite 0]\<rparr>,
           \<lparr>Name = ''sumSeries(A,B)'', StartTime = 0, StopTime = 30, StepTime = 10,
              Values = [Finite 1, Finite 7, Finite 0]\<rparr>],
          [2])"
proof -
  let ?h1 = "[\<lparr>Name = ''A'', StartTime = 0, StopTime = 30, StepTime = 10, Values = [Finite 1, Finite 2, NaN]\<rparr>,
           \<lparr>Name = ''B'', StartTime = 0, StopTime = 30, StepTime = 10, Values = [Finite 0, Finite 5, Finite 0]\<rparr>]"
  have al: "AlignSeries False exampleStore [0, 1] = Inr (?h1, [0, 1])"
    by (simp add: exampleStore_def align_eval)
  have le: "\<forall>p \<in> set [0, 1]. p < length ?h1 \<and> length (Values (?h1 ! hd [0, 1])) \<le> length (Values (?h1 ! p))"
    by simp
  from AggregateSeries_result [OF al le, of "Expr EtFunc ''sumSeries'' [] ''A,B''" exampleSum]
  show ?thesis
    by (simp add: samplesAt_def exampleSum_def upt_rec [of 0] upt_rec [of 1] upt_rec [of 2])
qed

text \<open>
  The claim as stated fails: it promises a result for every non-empty list. A series of
  step 10 with 12 samples and one of step 60 with 2 samples over the same bounds need
  no padding, and the read of the third sample of the second is out of range.
\<close>

theorem AggregateSeries_counterexample:
  "AggregateSeries False (Expr EtFunc ''sumSeries'' [] ''a,b'')
     [\<lparr>Name = ''a'', StartTime = 0, StopTime = 120, StepTime = 10, Values = replicate 12 (Finite 1)\<rparr>,
      \<lparr>Name = ''b'', StartTime = 0, StopTime = 120, StepTime = 60, Values = replicate 2 (Finite 2)\<rparr>]
     [0, 1] (\<lambda>vs. NaN)
   = Inl IndexOutOfRange"
  by code_simp

end
